theory Spec2Isabelle
  imports Main
begin

section \<open>Data model of package sfr\<close>

text \<open>
  Go values that can be nil are options, a runtime panic is a result of its own, and the
  records that Parse allocates live in an explicit store, because Parse keeps several
  pointers to one record (lastRecords, splitRec, Children, Parent) and writes through them.
\<close>

subsection \<open>Errors (errors.go)\<close>

text \<open>
  The error interface, as the dynamic types that occur: RecordParseError and
  FieldParseError (errors.go), MissingFieldError (the unmarshal helpers), and ErrorString
  for the values of fmt.Errorf and of the libraries.
\<close>

datatype error =
    RecordParseError string string
  | FieldParseError string string string
  | MissingFieldError string
  | ErrorString string

text \<open>The arguments of RecordParseError are RecordName and Text; those of
  FieldParseError are RecordName, FieldName and Text.\<close>

definition quoted :: "string \<Rightarrow> string" where
  "quoted s = CHR 0x22 # s @ [CHR 0x22]"

fun Error :: "error \<Rightarrow> string" where
  "Error (RecordParseError recordName text) = ''Record '' @ quoted recordName @ '': '' @ text"
| "Error (FieldParseError recordName fieldName text) =
     ''Record '' @ quoted recordName @ '', Field '' @ quoted fieldName @ '': '' @ text"
| "Error (MissingFieldError message) = message"
| "Error (ErrorString message) = message"

text \<open>ConfigurationError is a named interface type: the conversion keeps the value.\<close>

definition ConfigurationError :: "error option \<Rightarrow> error option" where
  "ConfigurationError err = err"

text \<open>The verb \<open>%d\<close> of fmt.Sprintf on a non-negative int.\<close>

definition digit :: "nat \<Rightarrow> char" where
  "digit n = ''0123456789'' ! n"

fun itoa :: "nat \<Rightarrow> string" where
  "itoa n = (if n < 10 then [digit n] else itoa (n div 10) @ [digit (n mod 10)])"

declare itoa.simps [simp del]

subsection \<open>Results of Go code\<close>

text \<open>A call either panics or returns.\<close>

datatype 'a go = Panics | Returns 'a

subsection \<open>Byte slices\<close>

text \<open>
  A \<open>[]byte\<close> is a window on an array: \<open>bytes\<close> are the \<open>len\<close> bytes of the slice and
  \<open>spare\<close> the bytes of the array behind them, up to the capacity. The token of a
  bufio.Scanner is such a window on the scanner's buffer.
\<close>

record byteslice =
  bytes :: string
  spare :: string

text \<open>
  The slice expression \<open>data[lo:hi]\<close>, converted to a string. For a slice operand the
  indices are in range if \<open>0 <= lo <= hi <= cap(data)\<close>; otherwise the expression panics.
\<close>

definition slice_expr :: "byteslice \<Rightarrow> int \<Rightarrow> int \<Rightarrow> string go" where
  "slice_expr data lo hi =
     (if 0 \<le> lo \<and> lo \<le> hi \<and> hi \<le> int (length (bytes data @ spare data))
      then Returns (take (nat hi - nat lo) (drop (nat lo) (bytes data @ spare data)))
      else Panics)"

subsection \<open>Record readers (fixedwidth.go)\<close>

text \<open>
  The interface RecordReader has the one method Read, so a reader is the function that
  Read computes: it panics or returns the values and an error.
\<close>

type_synonym RecordReader = "byteslice \<Rightarrow> (string list \<times> error option) go"

record FixedWidthFieldCoordinate =
  Start :: int
  End :: int

text \<open>
  FixedWidthRecordReader.Read fills \<open>values[i]\<close> for each coordinate in order and returns
  \<open>values, nil\<close>; \<open>Read_loop\<close> is its for loop.
\<close>

fun Read_loop :: "FixedWidthFieldCoordinate list \<Rightarrow> byteslice \<Rightarrow> string list go" where
  "Read_loop [] data = Returns []"
| "Read_loop (coord # coords) data =
     (case slice_expr data (Start coord) (End coord) of
        Panics \<Rightarrow> Panics
      | Returns v \<Rightarrow>
          (case Read_loop coords data of
             Panics \<Rightarrow> Panics
           | Returns vs \<Rightarrow> Returns (v # vs)))"

definition FixedWidthRecordReader_Read :: "FixedWidthFieldCoordinate list \<Rightarrow> RecordReader" where
  "FixedWidthRecordReader_Read Coordinates data =
     (case Read_loop Coordinates data of
        Panics \<Rightarrow> Panics
      | Returns values \<Rightarrow> Returns (values, None))"

subsection \<open>Records and fields\<close>

text \<open>
  The \<open>interface{}\<close> in Field.Value holds what a field type's GetValue returned: nil, a
  string, a float64 or a time.Time. Floating-point numbers and times are only carried
  here, never computed: a float64 is given by a mantissa and a binary exponent, a time
  by its nanoseconds since the epoch.
\<close>

datatype float64 = Float64 int int
datatype Time = Time int

datatype Value = NilValue | StringValue string | Float64Value float64 | TimeValue Time

record Field =
  Name :: string
  TypeName :: string
  Value :: Value

type_synonym addr = nat

text \<open>
  A \<open>*Record\<close> is an address of the store; a nil pointer is \<open>None\<close>.
\<close>

record Record =
  Name :: string
  Fields :: "Field list"
  Parent :: "addr option"
  Children :: "addr list"
  isWithinSplit :: bool

subsection \<open>Definitions (definitions.go)\<close>

text \<open>The interface FieldType has the one method GetValue, which returns a value and an
  error.\<close>

type_synonym FieldType = "string \<Rightarrow> Value \<times> error option"

definition StringFieldType_GetValue :: FieldType where
  "StringFieldType_GetValue data = (StringValue data, None)"

record FieldDefinition =
  Name :: string
  TypeName :: string
  FieldType :: FieldType

text \<open>RecordReader is an interface value and may be nil: UnmarshalJSON leaves it nil when
  the registered function fails.\<close>

record RecordDefinition =
  Name :: string
  MatchExpression :: string
  ReaderName :: string
  RecordReader :: "RecordReader option"
  ParentRecordName :: string
  FieldDefinitions :: "FieldDefinition list"

text \<open>
  regexp.Match of the standard library is a parameter: it returns whether the pattern
  matches the data, and an error when the pattern does not compile.
\<close>

type_synonym regexp_Match = "string \<Rightarrow> string \<Rightarrow> bool \<times> error option"

definition Match :: "regexp_Match \<Rightarrow> RecordDefinition \<Rightarrow> string \<Rightarrow> bool \<times> error option" where
  "Match rx rd data =
     (if MatchExpression rd = '''' then (True, None) else rx (MatchExpression rd) data)"

subsection \<open>The parser and its callbacks\<close>

text \<open>
  The callbacks are functions of their arguments. The RecordProcessor receives a pointer,
  so it sees the store as it is at the call; it is taken not to write to the records.
\<close>

type_synonym ErrorHandler = "error option \<Rightarrow> error option"
type_synonym RecordProcessor = "(addr \<Rightarrow> Record) \<Rightarrow> addr option \<Rightarrow> error option"

definition DefaultErrorHandler :: ErrorHandler where
  "DefaultErrorHandler err = err"

text \<open>RecordDefinitions is a slice of pointers, so an element may be nil.\<close>

record Parser =
  RecordDefinitions :: "RecordDefinition option list"
  SplitOnRecordName :: string
  RecordProcessor :: RecordProcessor
  ErrorHandler :: ErrorHandler

section \<open>Parser.Parse\<close>

text \<open>
  The state of one call of Parse: the store of the records built so far (\<open>nextAddr\<close> is
  the next free address), the local variables lastRecords, splitRec and lineNum, and the
  calls of the two callbacks made so far, in order.
\<close>

datatype event = HandlerCall "error option" | ProcessorCall "addr option"

record parse_state =
  heap :: "addr \<Rightarrow> Record"
  nextAddr :: addr
  lastRecords :: "string \<rightharpoonup> addr"
  splitRec :: "addr option"
  lineNum :: nat
  trace :: "event list"

text \<open>
  A piece of Parse goes on with a value, makes Parse return an error (or nil), or panics.
\<close>

datatype 'a result =
    Continue 'a parse_state
  | Returned "error option" parse_state
  | Panicked parse_state

fun state_of :: "'a result \<Rightarrow> parse_state" where
  "state_of (Continue x s) = s"
| "state_of (Returned err s) = s"
| "state_of (Panicked s) = s"

definition zeroRecord :: Record where
  "zeroRecord = \<lparr>Record.Name = '''', Fields = [], Parent = None, Children = [],
     isWithinSplit = False\<rparr>"

definition initState :: parse_state where
  "initState = \<lparr>heap = (\<lambda>a. zeroRecord), nextAddr = 0, lastRecords = Map.empty,
     splitRec = None, lineNum = 0, trace = []\<rparr>"

text \<open>\<open>p.ErrorHandler(err)\<close> and \<open>p.RecordProcessor(rec)\<close>, with the call noted.\<close>

definition handle :: "Parser \<Rightarrow> error option \<Rightarrow> parse_state \<Rightarrow> error option \<times> parse_state" where
  "handle p err s = (ErrorHandler p err, s\<lparr>trace := trace s @ [HandlerCall err]\<rparr>)"

definition process :: "Parser \<Rightarrow> addr option \<Rightarrow> parse_state \<Rightarrow> error option \<times> parse_state" where
  "process p rec s =
     (RecordProcessor p (heap s) rec, s\<lparr>trace := trace s @ [ProcessorCall rec]\<rparr>)"

text \<open>
  \<open>if err = p.ErrorHandler(err); err != nil { return err }\<close>: the statement that follows
  every error of Parse.
\<close>

definition handled :: "Parser \<Rightarrow> error \<Rightarrow> parse_state \<Rightarrow> unit result" where
  "handled p err s =
     (case handle p (Some err) s of
        (Some err', s') \<Rightarrow> Returned (Some err') s'
      | (None, s') \<Rightarrow> Continue () s')"

text \<open>Lines 113 to 119: the call of the record reader.\<close>

definition readRecord :: "Parser \<Rightarrow> RecordDefinition \<Rightarrow> byteslice \<Rightarrow> parse_state \<Rightarrow> string list result" where
  "readRecord p recDef data s =
     (case RecordReader recDef of
        None \<Rightarrow> Panicked s
      | Some reader \<Rightarrow>
          (case reader data of
             Panics \<Rightarrow> Panicked s
           | Returns (recVals, None) \<Rightarrow> Continue recVals s
           | Returns (recVals, Some err) \<Rightarrow>
               (case handled p (RecordParseError (RecordDefinition.Name recDef)
                        (''Error reading from RecordReader: '' @ Error err)) s of
                  Continue u s' \<Rightarrow> Continue recVals s'
                | Returned err' s' \<Rightarrow> Returned err' s'
                | Panicked s' \<Rightarrow> Panicked s')))"

text \<open>
  Lines 125 to 149: the loop over the field definitions, at index \<open>i\<close>, with the fields
  appended so far. \<open>recVals[i]\<close> panics when \<open>i\<close> is out of range.
\<close>

definition pastTheEnd :: "RecordDefinition \<Rightarrow> nat \<Rightarrow> error" where
  "pastTheEnd recDef n =
     RecordParseError (RecordDefinition.Name recDef)
       (''Past the end of available data on line '' @ itoa n)"

definition fieldError :: "RecordDefinition \<Rightarrow> FieldDefinition \<Rightarrow> nat \<Rightarrow> error \<Rightarrow> error" where
  "fieldError recDef fldDef n valerr =
     FieldParseError (RecordDefinition.Name recDef) (FieldDefinition.Name fldDef)
       (''Error on line '' @ itoa n @ '' getting field value: '' @ Error valerr)"

fun fieldLoop :: "Parser \<Rightarrow> RecordDefinition \<Rightarrow> string list \<Rightarrow> nat \<Rightarrow> FieldDefinition list \<Rightarrow>
    Field list \<Rightarrow> parse_state \<Rightarrow> Field list result" where
  "fieldLoop p recDef recVals i [] flds s = Continue flds s"
| "fieldLoop p recDef recVals i (fldDef # fldDefs) flds s =
     (case (if int i > int (length recVals) - 1
            then handled p (pastTheEnd recDef (lineNum s)) s else Continue () s) of
        Returned err s1 \<Rightarrow> Returned err s1
      | Panicked s1 \<Rightarrow> Panicked s1
      | Continue u s1 \<Rightarrow>
          if i < length recVals then
            (case FieldType fldDef (recVals ! i) of
               (fldVal, valerr) \<Rightarrow>
                 (case (case valerr of
                          None \<Rightarrow> Continue () s1
                        | Some e \<Rightarrow> handled p (fieldError recDef fldDef (lineNum s1) e) s1) of
                    Returned err s2 \<Rightarrow> Returned err s2
                  | Panicked s2 \<Rightarrow> Panicked s2
                  | Continue u' s2 \<Rightarrow>
                      fieldLoop p recDef recVals (i + 1) fldDefs
                        (flds @ [\<lparr>Field.Name = FieldDefinition.Name fldDef,
                                  TypeName = FieldDefinition.TypeName fldDef,
                                  Value = fldVal\<rparr>]) s2))
          else Panicked s1)"

text \<open>
  Lines 120 to 150. No pointer to \<open>rec\<close> exists before line 150, so the record enters the
  store there, with the fields of the loop, at the next free address, and lastRecords
  gets that address under the record's name.
\<close>

definition newRecord :: "RecordDefinition \<Rightarrow> Field list \<Rightarrow> Record" where
  "newRecord recDef flds =
     \<lparr>Record.Name = RecordDefinition.Name recDef, Fields = flds, Parent = None,
      Children = [], isWithinSplit = False\<rparr>"

definition allocRecord :: "RecordDefinition \<Rightarrow> Field list \<Rightarrow> parse_state \<Rightarrow> parse_state" where
  "allocRecord recDef flds s =
     s\<lparr>heap := (heap s)(nextAddr s := newRecord recDef flds),
       nextAddr := nextAddr s + 1,
       lastRecords := (lastRecords s)(RecordDefinition.Name recDef \<mapsto> nextAddr s)\<rparr>"

text \<open>Lines 160 to 162: \<open>splitRec = &rec; rec.isWithinSplit = true\<close>.\<close>

definition installSplit :: "addr \<Rightarrow> parse_state \<Rightarrow> parse_state" where
  "installSplit rec s =
     s\<lparr>splitRec := Some rec,
       heap := (heap s)(rec := (heap s rec)\<lparr>isWithinSplit := True\<rparr>)\<rparr>"

text \<open>Lines 152 to 163, for the record at address \<open>rec\<close>.\<close>

definition splitPhase :: "Parser \<Rightarrow> RecordDefinition \<Rightarrow> addr \<Rightarrow> parse_state \<Rightarrow> unit result" where
  "splitPhase p recDef rec s =
     (if RecordDefinition.Name recDef = SplitOnRecordName p then
        (case splitRec s of
           None \<Rightarrow> Continue () (installSplit rec s)
         | Some prev \<Rightarrow>
             (case process p (Some prev) s of
                (Some err, s1) \<Rightarrow> Returned (Some err) s1
              | (None, s1) \<Rightarrow> Continue () (installSplit rec s1)))
      else Continue () s)"

definition noParent :: "RecordDefinition \<Rightarrow> nat \<Rightarrow> error" where
  "noParent recDef n =
     RecordParseError (RecordDefinition.Name recDef)
       (''No available parent record '' @ quoted (ParentRecordName recDef) @
        '' on line '' @ itoa n)"

text \<open>
  Lines 164 to 187. The parent is a pointer, so the append writes to the record that
  lastRecords points to; that record may be \<open>rec\<close> itself.
\<close>

definition attachPhase :: "Parser \<Rightarrow> RecordDefinition \<Rightarrow> addr \<Rightarrow> parse_state \<Rightarrow> unit result" where
  "attachPhase p recDef rec s =
     (case lastRecords s (ParentRecordName recDef) of
        Some parent \<Rightarrow>
          if isWithinSplit (heap s parent) then
            (let h1 = (heap s)(rec := (heap s rec)\<lparr>isWithinSplit := True\<rparr>);
                 h2 = h1(parent := (h1 parent)\<lparr>Children := Children (h1 parent) @ [rec]\<rparr>)
             in Continue () (s\<lparr>heap := h2\<rparr>))
          else
            Continue () (s\<lparr>heap := (heap s)(rec := (heap s rec)
              \<lparr>Parent := lastRecords s (ParentRecordName recDef)\<rparr>)\<rparr>)
      | None \<Rightarrow>
          if ParentRecordName recDef \<noteq> '''' then handled p (noParent recDef (lineNum s)) s
          else Continue () s)"

text \<open>Lines 120 to 187: the record with its fields is registered, split on and attached.\<close>

definition assemble :: "Parser \<Rightarrow> RecordDefinition \<Rightarrow> Field list \<Rightarrow> parse_state \<Rightarrow> unit result" where
  "assemble p recDef flds s =
     (case splitPhase p recDef (nextAddr s) (allocRecord recDef flds s) of
        Continue u s1 \<Rightarrow> attachPhase p recDef (nextAddr s) s1
      | Returned err s1 \<Rightarrow> Returned err s1
      | Panicked s1 \<Rightarrow> Panicked s1)"

text \<open>Lines 113 to 189: what Parse does with a line once a definition has matched it.\<close>

definition processRecord :: "Parser \<Rightarrow> RecordDefinition \<Rightarrow> byteslice \<Rightarrow> parse_state \<Rightarrow> unit result" where
  "processRecord p recDef data s =
     (case readRecord p recDef data s of
        Returned err s1 \<Rightarrow> Returned err s1
      | Panicked s1 \<Rightarrow> Panicked s1
      | Continue recVals s1 \<Rightarrow>
          (case fieldLoop p recDef recVals 0 (FieldDefinitions recDef) [] s1 of
             Returned err s2 \<Rightarrow> Returned err s2
           | Panicked s2 \<Rightarrow> Panicked s2
           | Continue flds s2 \<Rightarrow> assemble p recDef flds s2))"

text \<open>
  Lines 104 to 190: the loop over the record definitions for one line. Calling Match on
  a nil definition panics. The \<open>break\<close> of line 189 ends the loop after processRecord.
\<close>

fun scanDefs :: "regexp_Match \<Rightarrow> Parser \<Rightarrow> byteslice \<Rightarrow> RecordDefinition option list \<Rightarrow>
    parse_state \<Rightarrow> unit result" where
  "scanDefs rx p data [] s = Continue () s"
| "scanDefs rx p data (None # recDefs) s = Panicked s"
| "scanDefs rx p data (Some recDef # recDefs) s =
     (case Match rx recDef (bytes data) of
        (match, err) \<Rightarrow>
          (case handle p (ConfigurationError err) s of
             (Some err', s1) \<Rightarrow> Returned (Some err') s1
           | (None, s1) \<Rightarrow>
               if \<not> match then scanDefs rx p data recDefs s1
               else processRecord p recDef data s1))"

text \<open>
  Lines 102 to 191: the loop over the lines that the scanner yields; each line is the
  scanner's token, a byte slice.
\<close>

fun scanLines :: "regexp_Match \<Rightarrow> Parser \<Rightarrow> byteslice list \<Rightarrow> parse_state \<Rightarrow> unit result" where
  "scanLines rx p [] s = Continue () s"
| "scanLines rx p (line # lines) s =
     (case scanDefs rx p line (RecordDefinitions p) (s\<lparr>lineNum := lineNum s + 1\<rparr>) of
        Continue u s1 \<Rightarrow> scanLines rx p lines s1
      | Returned err s1 \<Rightarrow> Returned err s1
      | Panicked s1 \<Rightarrow> Panicked s1)"

text \<open>Line 193: \<open>return p.ErrorHandler(p.RecordProcessor(splitRec))\<close>.\<close>

definition finish :: "Parser \<Rightarrow> parse_state \<Rightarrow> unit result" where
  "finish p s =
     (case process p (splitRec s) s of
        (err, s1) \<Rightarrow> (case handle p err s1 of (err', s2) \<Rightarrow> Returned err' s2))"

definition Parse :: "regexp_Match \<Rightarrow> Parser \<Rightarrow> byteslice list \<Rightarrow> unit result" where
  "Parse rx p source =
     (case scanLines rx p source initState of
        Continue u s \<Rightarrow> finish p s
      | Returned err s \<Rightarrow> Returned err s
      | Panicked s \<Rightarrow> Panicked s)"

section \<open>Schema loading (definitions.go)\<close>

text \<open>
  The schema is a JSON document. A json.RawMessage is a JSON value; the calls of
  json.Unmarshal that the source makes are given by what they do on each kind of value.
\<close>

datatype json =
    JNull
  | JBool bool
  | JNumber string
  | JString string
  | JArray "json list"
  | JObject "(string \<times> json) list"

text \<open>
  json.Unmarshal into a nil \<open>map[string]json.RawMessage\<close>: an object fills the map, a
  later member replacing an earlier one of the same name; null leaves the map nil, which
  reads as the empty map; any other value is an error.
\<close>

definition unmarshalMap :: "json \<Rightarrow> error + (string \<rightharpoonup> json)" where
  "unmarshalMap data =
     (case data of
        JObject members \<Rightarrow> Inr (map_of (rev members))
      | JNull \<Rightarrow> Inr Map.empty
      | _ \<Rightarrow> Inl (ErrorString ''json: cannot unmarshal into Go value of type map[string]json.RawMessage''))"

text \<open>
  json.Unmarshal into a \<open>*string\<close>: a JSON string is stored, null leaves the target as
  it is, any other value is an error.
\<close>

definition unmarshalStringValue :: "json \<Rightarrow> string \<Rightarrow> error + string" where
  "unmarshalStringValue data target =
     (case data of
        JString v \<Rightarrow> Inr v
      | JNull \<Rightarrow> Inr target
      | _ \<Rightarrow> Inl (ErrorString ''json: cannot unmarshal into Go value of type string''))"

text \<open>The two helpers; they return the error or the new value of \<open>*target\<close>.\<close>

definition mustUnmarshalString :: "(string \<rightharpoonup> json) \<Rightarrow> string \<Rightarrow> string \<Rightarrow> error + string" where
  "mustUnmarshalString rawMap fieldName target =
     (case rawMap fieldName of
        None \<Rightarrow> Inl (MissingFieldError
                  (''Error unmarshalling missing required field '' @ quoted fieldName))
      | Some rawName \<Rightarrow> unmarshalStringValue rawName target)"

definition unmarshalString :: "(string \<rightharpoonup> json) \<Rightarrow> string \<Rightarrow> string \<Rightarrow> error + string" where
  "unmarshalString rawMap fieldName target =
     (case mustUnmarshalString rawMap fieldName target of
        Inl err \<Rightarrow> (case err of MissingFieldError m \<Rightarrow> Inr target | _ \<Rightarrow> Inl err)
      | Inr v \<Rightarrow> Inr v)"

text \<open>
  The registries are maps from names to functions. A RecordReaderUnmarshalFunc returns a
  reader and an error, as in Go. A FieldTypeUnmarshalFunc gets the member FieldType of the
  field definition, if there is one, and is taken to return either an error or a field
  type; FieldDefinition.UnmarshalJSON returns its error in any case.
\<close>

type_synonym RecordReaderUnmarshalFunc = "json \<Rightarrow> RecordReader option \<times> error option"

type_synonym FieldTypeUnmarshalFunc = "json option \<Rightarrow> error + FieldType"

definition GetRecordReaderUnmarshalFunc ::
    "(string \<rightharpoonup> RecordReaderUnmarshalFunc) \<Rightarrow> string \<Rightarrow> error + RecordReaderUnmarshalFunc" where
  "GetRecordReaderUnmarshalFunc RecordReaderRegistry name =
     (case RecordReaderRegistry name of
        None \<Rightarrow> Inl (ErrorString (''No RecordReader named '' @ quoted name @ '' exists in registry''))
      | Some readerFunc \<Rightarrow> Inr readerFunc)"

definition GetFieldTypeUnmarshalFunc ::
    "(string \<rightharpoonup> FieldTypeUnmarshalFunc) \<Rightarrow> string \<Rightarrow> error + FieldTypeUnmarshalFunc" where
  "GetFieldTypeUnmarshalFunc FieldTypeRegistry name =
     (case FieldTypeRegistry name of
        None \<Rightarrow> Inl (ErrorString (''No FieldType named '' @ quoted name @ '' exists in registry''))
      | Some typeFunc \<Rightarrow> Inr typeFunc)"

definition FieldDefinition_UnmarshalJSON ::
    "(string \<rightharpoonup> FieldTypeUnmarshalFunc) \<Rightarrow> json \<Rightarrow> error + FieldDefinition" where
  "FieldDefinition_UnmarshalJSON FieldTypeRegistry data =
     (case unmarshalMap data of
        Inl err \<Rightarrow> Inl err
      | Inr rawFieldDef \<Rightarrow>
     (case mustUnmarshalString rawFieldDef ''Name'' '''' of
        Inl err \<Rightarrow> Inl err
      | Inr name \<Rightarrow>
     (case mustUnmarshalString rawFieldDef ''TypeName'' '''' of
        Inl err \<Rightarrow> Inl err
      | Inr typeName \<Rightarrow>
     (case GetFieldTypeUnmarshalFunc FieldTypeRegistry typeName of
        Inl err \<Rightarrow> Inl (ErrorString
          (''Error getting field type unmarshal function for FieldType '' @ quoted name @
           '': '' @ Error err))
      | Inr typeFunc \<Rightarrow>
     (case typeFunc (rawFieldDef ''FieldType'') of
        Inl err \<Rightarrow> Inl err
      | Inr fieldType \<Rightarrow>
          Inr \<lparr>FieldDefinition.Name = name, TypeName = typeName, FieldType = fieldType\<rparr>)))))"

text \<open>
  json.Unmarshal into \<open>rd.FieldDefinitions\<close>: every element of an array goes through
  FieldDefinition.UnmarshalJSON, and the first error ends the decoding.
\<close>

fun unmarshalFieldDefinitions_loop ::
    "(string \<rightharpoonup> FieldTypeUnmarshalFunc) \<Rightarrow> json list \<Rightarrow> error + FieldDefinition list" where
  "unmarshalFieldDefinitions_loop FieldTypeRegistry [] = Inr []"
| "unmarshalFieldDefinitions_loop FieldTypeRegistry (elem # elems) =
     (case FieldDefinition_UnmarshalJSON FieldTypeRegistry elem of
        Inl err \<Rightarrow> Inl err
      | Inr def \<Rightarrow>
          (case unmarshalFieldDefinitions_loop FieldTypeRegistry elems of
             Inl err \<Rightarrow> Inl err
           | Inr defs \<Rightarrow> Inr (def # defs)))"

definition unmarshalFieldDefinitions ::
    "(string \<rightharpoonup> FieldTypeUnmarshalFunc) \<Rightarrow> json \<Rightarrow> error + FieldDefinition list" where
  "unmarshalFieldDefinitions FieldTypeRegistry data =
     (case data of
        JArray elems \<Rightarrow> unmarshalFieldDefinitions_loop FieldTypeRegistry elems
      | JNull \<Rightarrow> Inr []
      | _ \<Rightarrow> Inl (ErrorString ''json: cannot unmarshal into Go value of type []sfr.FieldDefinition''))"

text \<open>
  RecordDefinition.UnmarshalJSON. The error of \<open>readerFunc(rawReader)\<close> is overwritten
  by the next assignment to \<open>err\<close>, and \<open>rd.ReaderName\<close> is never assigned.
\<close>

definition RecordDefinition_UnmarshalJSON ::
    "(string \<rightharpoonup> RecordReaderUnmarshalFunc) \<Rightarrow> (string \<rightharpoonup> FieldTypeUnmarshalFunc) \<Rightarrow> json \<Rightarrow>
     error + RecordDefinition" where
  "RecordDefinition_UnmarshalJSON RecordReaderRegistry FieldTypeRegistry data =
     (case unmarshalMap data of
        Inl err \<Rightarrow> Inl err
      | Inr rawRecDef \<Rightarrow>
     (case mustUnmarshalString rawRecDef ''Name'' '''' of
        Inl err \<Rightarrow> Inl err
      | Inr name \<Rightarrow>
     (case unmarshalString rawRecDef ''MatchExpression'' '''' of
        Inl err \<Rightarrow> Inl err
      | Inr matchExpression \<Rightarrow>
     (case mustUnmarshalString rawRecDef ''ReaderName'' '''' of
        Inl err \<Rightarrow> Inl err
      | Inr readerName \<Rightarrow>
     (case rawRecDef ''RecordReader'' of
        None \<Rightarrow> Inl (ErrorString (''No RecordReader defined in RecordDefinition '' @ quoted name))
      | Some rawReader \<Rightarrow>
     (case unmarshalMap rawReader of
        Inl err \<Rightarrow> Inl err
      | Inr rawReaderFields \<Rightarrow>
     (case GetRecordReaderUnmarshalFunc RecordReaderRegistry readerName of
        Inl err \<Rightarrow> Inl (ErrorString
          (''Error getting record reader unmarshal function for RecordDefinition '' @
           quoted name @ '': '' @ Error err))
      | Inr readerFunc \<Rightarrow>
     (case unmarshalString rawRecDef ''ParentRecordName'' '''' of
        Inl err \<Rightarrow> Inl err
      | Inr parentRecordName \<Rightarrow>
     (case (case rawRecDef ''FieldDefinitions'' of
              None \<Rightarrow> Inr []
            | Some rawFieldDefinitions \<Rightarrow>
                unmarshalFieldDefinitions FieldTypeRegistry rawFieldDefinitions) of
        Inl err \<Rightarrow> Inl err
      | Inr fieldDefinitions \<Rightarrow>
          Inr \<lparr>RecordDefinition.Name = name, MatchExpression = matchExpression,
               ReaderName = '''', RecordReader = fst (readerFunc rawReader),
               ParentRecordName = parentRecordName,
               FieldDefinitions = fieldDefinitions\<rparr>)))))))))"

text \<open>
  NewParser decodes the document into the Parser. The document is taken as decoded to the
  members of the Parser struct: the elements of the array RecordDefinitions, each still
  raw, and SplitOnRecordName. A null element gives a nil pointer; any other element goes
  through RecordDefinition.UnmarshalJSON, and the first error ends the decoding. NewParser
  returns that error converted to ConfigurationError, which keeps the value.
\<close>

record SchemaDocument =
  docRecordDefinitions :: "json list"
  docSplitOnRecordName :: string

fun decodeRecordDefinitions ::
    "(string \<rightharpoonup> RecordReaderUnmarshalFunc) \<Rightarrow> (string \<rightharpoonup> FieldTypeUnmarshalFunc) \<Rightarrow> json list \<Rightarrow>
     error + RecordDefinition option list" where
  "decodeRecordDefinitions rr ft [] = Inr []"
| "decodeRecordDefinitions rr ft (elem # elems) =
     (case (if elem = JNull then Inr None
            else map_sum id Some (RecordDefinition_UnmarshalJSON rr ft elem)) of
        Inl err \<Rightarrow> Inl err
      | Inr recDef \<Rightarrow>
          (case decodeRecordDefinitions rr ft elems of
             Inl err \<Rightarrow> Inl err
           | Inr recDefs \<Rightarrow> Inr (recDef # recDefs)))"

definition NewParser ::
    "(string \<rightharpoonup> RecordReaderUnmarshalFunc) \<Rightarrow> (string \<rightharpoonup> FieldTypeUnmarshalFunc) \<Rightarrow>
     SchemaDocument \<Rightarrow> RecordProcessor option \<Rightarrow> ErrorHandler option \<Rightarrow> error + Parser" where
  "NewParser RecordReaderRegistry FieldTypeRegistry config processor handler =
     (case decodeRecordDefinitions RecordReaderRegistry FieldTypeRegistry
             (docRecordDefinitions config) of
        Inl err \<Rightarrow> Inl err
      | Inr recDefs \<Rightarrow>
          Inr \<lparr>RecordDefinitions = recDefs,
               SplitOnRecordName = docSplitOnRecordName config,
               RecordProcessor = (case processor of None \<Rightarrow> (\<lambda>h record. None) | Some f \<Rightarrow> f),
               ErrorHandler = (case handler of None \<Rightarrow> DefaultErrorHandler | Some h \<Rightarrow> h)\<rparr>)"

section \<open>Notions used in the statements\<close>

text \<open>The reader and field type names that a raw record definition refers to.\<close>

definition memberOf :: "json \<Rightarrow> string \<Rightarrow> json option" where
  "memberOf data name = (case data of JObject members \<Rightarrow> map_of (rev members) name | _ \<Rightarrow> None)"

definition readerNameOf :: "json \<Rightarrow> string option" where
  "readerNameOf recDef = (case memberOf recDef ''ReaderName'' of Some (JString name) \<Rightarrow> Some name | _ \<Rightarrow> None)"

definition typeNameOf :: "json \<Rightarrow> string option" where
  "typeNameOf fldDef = (case memberOf fldDef ''TypeName'' of Some (JString name) \<Rightarrow> Some name | _ \<Rightarrow> None)"

definition fieldDefinitionsOf :: "json \<Rightarrow> json list" where
  "fieldDefinitionsOf recDef = (case memberOf recDef ''FieldDefinitions'' of Some (JArray elems) \<Rightarrow> elems | _ \<Rightarrow> [])"

text \<open>\<open>s'\<close> is \<open>s\<close> after some calls of the ErrorHandler and nothing else.\<close>

definition handlerCalls :: "parse_state \<Rightarrow> parse_state \<Rightarrow> bool" where
  "handlerCalls s s' = (\<exists>errs. s' = s\<lparr>trace := trace s @ map HandlerCall errs\<rparr>)"

text \<open>
  What the loop over the record definitions does with one line: it only calls the
  ErrorHandler, or it calls it and then assembles one record.
\<close>

definition lineStep :: "Parser \<Rightarrow> parse_state \<Rightarrow> unit result \<Rightarrow> bool" where
  "lineStep p s r =
     (handlerCalls s (state_of r) \<or>
      (\<exists>recDef flds s2. handlerCalls s s2 \<and> r = assemble p recDef flds s2))"

text \<open>The field that the loop builds from a field definition and a value.\<close>

definition fieldOf :: "FieldDefinition \<times> string \<Rightarrow> Field" where
  "fieldOf = (\<lambda>(fldDef, v). \<lparr>Field.Name = FieldDefinition.Name fldDef,
      TypeName = FieldDefinition.TypeName fldDef, Value = fst (FieldType fldDef v)\<rparr>)"

text \<open>
  Every pointer that Parse holds is to a record in the store, and the split record is in
  lastRecords under the split name only.
\<close>

definition wellFormed :: "Parser \<Rightarrow> parse_state \<Rightarrow> bool" where
  "wellFormed p s =
     ((\<forall>k a. lastRecords s k = Some a \<longrightarrow> a < nextAddr s) \<and>
      (\<forall>u. splitRec s = Some u \<longrightarrow>
         u < nextAddr s \<and> (\<forall>k. lastRecords s k = Some u \<longrightarrow> k = SplitOnRecordName p)))"

text \<open>Parse holds no pointer to the record at \<open>u\<close>; and the record there is \<open>r\<close>.\<close>

definition detached :: "addr \<Rightarrow> parse_state \<Rightarrow> bool" where
  "detached u s = (u < nextAddr s \<and> splitRec s \<noteq> Some u \<and> (\<forall>k. lastRecords s k \<noteq> Some u))"

definition keeps :: "addr \<Rightarrow> Record \<Rightarrow> parse_state \<Rightarrow> bool" where
  "keeps u r s = (detached u s \<and> heap s u = r)"

text \<open>The arguments of the calls of the RecordProcessor, in order.\<close>

fun emitted :: "event list \<Rightarrow> addr option list" where
  "emitted [] = []"
| "emitted (HandlerCall err # evs) = emitted evs"
| "emitted (ProcessorCall rec # evs) = rec # emitted evs"

fun inFlight :: "addr option \<Rightarrow> addr option list" where
  "inFlight None = []"
| "inFlight (Some rec) = [Some rec]"

text \<open>The records of the split type in the store, in the order they were built.\<close>

definition splitRecords :: "Parser \<Rightarrow> parse_state \<Rightarrow> addr list" where
  "splitRecords p s =
     filter (\<lambda>a. Record.Name (heap s a) = SplitOnRecordName p) [0..<nextAddr s]"

definition handoff :: "Parser \<Rightarrow> parse_state \<Rightarrow> bool" where
  "handoff p s =
     (emitted (trace s) @ inFlight (splitRec s) = map Some (splitRecords p s) \<and>
      (splitRec s = None \<longrightarrow> emitted (trace s) = []))"

text \<open>lastRecords has an entry for a name exactly when a record of that name is in the
  store.\<close>

definition registered :: "parse_state \<Rightarrow> bool" where
  "registered s =
     (\<forall>k. (lastRecords s k = None) = (\<forall>a < nextAddr s. Record.Name (heap s a) \<noteq> k))"

text \<open>The record of the name \<open>k\<close> that was built last: records enter the store at increasing
  addresses, so it is the one at the highest address.\<close>

definition mostRecent :: "string \<Rightarrow> parse_state \<Rightarrow> addr option" where
  "mostRecent k s =
     (case filter (\<lambda>a. Record.Name (heap s a) = k) (rev [0..<nextAddr s]) of
        [] \<Rightarrow> None
      | a # older \<Rightarrow> Some a)"

text \<open>lastRecords has, under every name, the record of that name that was built last.\<close>

definition latestRegistered :: "parse_state \<Rightarrow> bool" where
  "latestRegistered s = (\<forall>k. lastRecords s k = mostRecent k s)"



section \<open>A schema and an input for the examples\<close>

text \<open>
  A stand-in for regexp.Match on the patterns \<open>^literal\<close>, where the literal has no
  metacharacter: the data match if they start with the literal.
\<close>

definition caretMatch :: regexp_Match where
  "caretMatch pattern data =
     (case pattern of
        [] \<Rightarrow> (True, None)
      | c # literal \<Rightarrow>
          if c = CHR ''^'' then (take (length literal) data = literal, None)
          else (False, Some (ErrorString ''pattern not covered'')))"

text \<open>A line whose token has no spare capacity.\<close>

definition lineOf :: "string \<Rightarrow> byteslice" where
  "lineOf s = \<lparr>bytes = s, spare = ''''\<rparr>"

definition idField :: FieldDefinition where
  "idField = \<lparr>FieldDefinition.Name = ''ID'', TypeName = ''String'',
     FieldType = StringFieldType_GetValue\<rparr>"

definition qtyField :: FieldDefinition where
  "qtyField = \<lparr>FieldDefinition.Name = ''Qty'', TypeName = ''String'',
     FieldType = StringFieldType_GetValue\<rparr>"

definition idOf :: "string \<Rightarrow> Field list" where
  "idOf v = [\<lparr>Field.Name = ''ID'', TypeName = ''String'', Value = StringValue v\<rparr>]"

text \<open>
  Four record types as in the purchase order example, each read by a fixed-width reader
  that takes the bytes 1 to 3 of the line as the one field.
\<close>

definition poDef :: "string \<Rightarrow> string \<Rightarrow> string \<Rightarrow> RecordDefinition" where
  "poDef name pattern parent =
     \<lparr>RecordDefinition.Name = name, MatchExpression = pattern, ReaderName = '''',
      RecordReader = Some (FixedWidthRecordReader_Read [\<lparr>Start = 1, End = 4\<rparr>]),
      ParentRecordName = parent, FieldDefinitions = [idField]\<rparr>"

definition poBatch :: RecordDefinition where "poBatch = poDef ''Batch'' ''^B'' ''''"

definition poHeader :: RecordDefinition where "poHeader = poDef ''Header'' ''^H'' ''Batch''"

definition poLine :: RecordDefinition where "poLine = poDef ''Line'' ''^L'' ''Header''"

definition poShipment :: RecordDefinition where "poShipment = poDef ''Shipment'' ''^S'' ''Line''"

definition poParser :: Parser where
  "poParser = \<lparr>RecordDefinitions = [Some poBatch, Some poHeader, Some poLine, Some poShipment],
     SplitOnRecordName = ''Header'', RecordProcessor = (\<lambda>h record. None),
     ErrorHandler = DefaultErrorHandler\<rparr>"

definition poLines :: "byteslice list" where
  "poLines = [lineOf ''B001'', lineOf ''H001'', lineOf ''L001'', lineOf ''H002'', lineOf ''S001'']"

text \<open>The state of Parse after the first \<open>n\<close> of these lines.\<close>

definition stateAfter :: "nat \<Rightarrow> parse_state" where
  "stateAfter n = state_of (scanLines caretMatch poParser (take n poLines) initState)"

text \<open>The state in which the second line of the input B001, L001 has been matched.\<close>

definition lineScanned :: parse_state where
  "lineScanned = (stateAfter 1)\<lparr>lineNum := 2,
     trace := trace (stateAfter 1) @ [HandlerCall None, HandlerCall None, HandlerCall None]\<rparr>"

text \<open>A record type that names itself as its parent.\<close>

definition selfDef :: RecordDefinition where
  "selfDef = poDef ''Node'' '''' ''Node''"

definition selfParser :: Parser where
  "selfParser = poParser\<lparr>RecordDefinitions := [Some selfDef]\<rparr>"

text \<open>A record type with two fields whose reader yields one value.\<close>

definition wideDef :: RecordDefinition where
  "wideDef = (poDef ''Wide'' '''' '''')\<lparr>FieldDefinitions := [idField, qtyField]\<rparr>"

text \<open>A parser whose ErrorHandler continues after every error, and one whose
  ErrorHandler returns an error whatever it is given.\<close>

definition lenientParser :: Parser where
  "lenientParser = \<lparr>RecordDefinitions = [Some wideDef], SplitOnRecordName = ''Wide'',
     RecordProcessor = (\<lambda>h record. None), ErrorHandler = (\<lambda>err. None)\<rparr>"

definition strictParser :: Parser where
  "strictParser = poParser\<lparr>ErrorHandler := (\<lambda>err. Some (ErrorString ''halt''))\<rparr>"

text \<open>Registries with one reader and one field type, and two raw record definitions: one
  names a reader and one a field type that is not registered.\<close>

definition exampleReaders :: "string \<rightharpoonup> RecordReaderUnmarshalFunc" where
  "exampleReaders = [''FixedWidth'' \<mapsto> (\<lambda>data. (Some (FixedWidthRecordReader_Read []), None))]"

definition exampleTypes :: "string \<rightharpoonup> FieldTypeUnmarshalFunc" where
  "exampleTypes = [''String'' \<mapsto> (\<lambda>data. Inr StringFieldType_GetValue)]"

definition csvDefinition :: json where
  "csvDefinition = JObject [(''Name'', JString ''A''), (''ReaderName'', JString ''Csv''),
     (''RecordReader'', JObject [])]"

definition moneyField :: json where
  "moneyField = JObject [(''Name'', JString ''Amount''), (''TypeName'', JString ''Money'')]"

definition moneyDefinition :: json where
  "moneyDefinition = JObject [(''Name'', JString ''A''), (''ReaderName'', JString ''FixedWidth''),
     (''RecordReader'', JObject []), (''FieldDefinitions'', JArray [moneyField])]"

definition document :: "json \<Rightarrow> SchemaDocument" where
  "document recDef = \<lparr>docRecordDefinitions = [recDef], docSplitOnRecordName = ''A''\<rparr>"

text \<open>The state after a batch and two headers, and the state in which the line L001 that
  follows them has been matched; the same for a header that follows two batches.\<close>

definition twoHeaders :: parse_state where
  "twoHeaders = state_of (scanLines caretMatch poParser
     [lineOf ''B001'', lineOf ''H001'', lineOf ''H002''] initState)"

definition twoHeadersLine :: parse_state where
  "twoHeadersLine = twoHeaders\<lparr>lineNum := 4,
     trace := trace twoHeaders @ [HandlerCall None, HandlerCall None, HandlerCall None]\<rparr>"

definition twoBatches :: parse_state where
  "twoBatches = state_of (scanLines caretMatch poParser
     [lineOf ''B001'', lineOf ''B002''] initState)"

definition twoBatchesHeader :: parse_state where
  "twoBatchesHeader = twoBatches\<lparr>lineNum := 3,
     trace := trace twoBatches @ [HandlerCall None, HandlerCall None]\<rparr>"










section \<open>Properties\<close>

lemmas parse_defs = Parse_def finish_def processRecord_def readRecord_def assemble_def
  allocRecord_def newRecord_def splitPhase_def installSplit_def attachPhase_def handled_def
  handle_def process_def Match_def ConfigurationError_def DefaultErrorHandler_def
  initState_def pastTheEnd_def fieldError_def noParent_def zeroRecord_def
  FixedWidthRecordReader_Read_def slice_expr_def StringFieldType_GetValue_def

lemmas po_defs = caretMatch_def lineOf_def idField_def idOf_def poDef_def poBatch_def poHeader_def
  poLine_def poShipment_def poParser_def poLines_def stateAfter_def


subsection \<open>Calls of the ErrorHandler\<close>

lemma handlerCalls_refl: "handlerCalls s s"
  unfolding handlerCalls_def by (rule exI [of _ "[]"]) simp

lemma handlerCalls_trans: "handlerCalls s s1 \<Longrightarrow> handlerCalls s1 s2 \<Longrightarrow> handlerCalls s s2"
  unfolding handlerCalls_def
proof (elim exE)
  fix e1 e2
  assume "s1 = s\<lparr>trace := trace s @ map HandlerCall e1\<rparr>"
    and "s2 = s1\<lparr>trace := trace s1 @ map HandlerCall e2\<rparr>"
  then have "s2 = s\<lparr>trace := trace s @ map HandlerCall (e1 @ e2)\<rparr>" by simp
  then show "\<exists>errs. s2 = s\<lparr>trace := trace s @ map HandlerCall errs\<rparr>" ..
qed

lemma handlerCalls_one: "handlerCalls s (s\<lparr>trace := trace s @ [HandlerCall err]\<rparr>)"
  unfolding handlerCalls_def by (rule exI [of _ "[err]"]) simp

lemma handlerCalls_same:
  assumes "handlerCalls s s'"
  shows "heap s' = heap s" and "nextAddr s' = nextAddr s" and "lastRecords s' = lastRecords s"
    and "splitRec s' = splitRec s" and "lineNum s' = lineNum s"
  using assms by (auto simp: handlerCalls_def)

lemma handled_state: "state_of (handled p err s) = s\<lparr>trace := trace s @ [HandlerCall (Some err)]\<rparr>"
  by (simp add: handled_def handle_def split: option.splits)

lemma handled_calls: "handlerCalls s (state_of (handled p err s))"
  by (simp add: handled_state handlerCalls_one)

lemma readRecord_calls: "handlerCalls s (state_of (readRecord p recDef data s))"
  by (auto simp: readRecord_def handled_def handle_def handlerCalls_refl handlerCalls_one
      split: option.splits go.splits prod.splits)

lemma fieldLoop_calls: "handlerCalls s (state_of (fieldLoop p recDef recVals i fldDefs flds s))"
proof (induction fldDefs arbitrary: i flds s)
  case Nil
  show ?case by (simp add: handlerCalls_refl)
next
  case (Cons fldDef fldDefs)
  have step: "\<And>err i flds. handlerCalls s (state_of (fieldLoop p recDef recVals i fldDefs flds
      (s\<lparr>trace := trace s @ [HandlerCall err]\<rparr>)))"
    using Cons.IH handlerCalls_one handlerCalls_trans by blast
  show ?case
    using Cons.IH step
    by (auto simp: handled_def handle_def handlerCalls_refl handlerCalls_one
      split: prod.splits option.splits)
qed

subsection \<open>The loop over the field definitions\<close>



lemma fieldLoop_fields:
  "fieldLoop p recDef recVals i fldDefs flds s = Continue flds' s' \<Longrightarrow>
   i + length fldDefs \<le> length recVals \<Longrightarrow>
   flds' = flds @ map fieldOf (zip fldDefs (drop i recVals))"
proof (induction fldDefs arbitrary: i flds s)
  case Nil
  then show ?case by simp
next
  case (Cons fldDef fldDefs)
  from Cons.prems(2) have i: "i < length recVals" by simp
  then have d: "drop i recVals = recVals ! i # drop (Suc i) recVals"
    by (simp add: Cons_nth_drop_Suc)
  from Cons.prems(1) i obtain s2 where
    "fieldLoop p recDef recVals (i + 1) fldDefs (flds @ [fieldOf (fldDef, recVals ! i)]) s2 = Continue flds' s'"
    by (auto simp: fieldOf_def split: prod.splits option.splits result.splits if_splits)
  from Cons.IH [OF this] Cons.prems(2) show ?case
    by (simp add: d)
qed

lemma fieldLoop_no_panic:
  "i + length fldDefs \<le> length recVals \<Longrightarrow>
   fieldLoop p recDef recVals i fldDefs flds s \<noteq> Panicked s'"
  by (induction fldDefs arbitrary: i flds s)
     (auto simp: handled_def handle_def split: prod.splits option.splits)

subsection \<open>Scanning the definitions and the lines\<close>

lemma scanDefs_skip:
  assumes "\<forall>d \<in> set earlier. \<not> fst (Match rx d (bytes data)) \<and>
             ErrorHandler p (ConfigurationError (snd (Match rx d (bytes data)))) = None"
  shows "scanDefs rx p data (map Some earlier @ recDefs) s =
         scanDefs rx p data recDefs
           (s\<lparr>trace := trace s @ map (\<lambda>d. HandlerCall (snd (Match rx d (bytes data)))) earlier\<rparr>)"
  using assms
proof (induction earlier arbitrary: s)
  case Nil
  show ?case by simp
next
  case (Cons d earlier)
  then show ?case
    by (auto simp: handle_def ConfigurationError_def split: prod.splits option.splits)
qed

lemma lineStep_calls: "handlerCalls s s1 \<Longrightarrow> lineStep p s1 r \<Longrightarrow> lineStep p s r"
  unfolding lineStep_def using handlerCalls_trans by blast

lemma processRecord_lineStep: "lineStep p s (processRecord p recDef data s)"
proof (cases "readRecord p recDef data s")
  case (Continue recVals s1)
  have c1: "handlerCalls s s1" using readRecord_calls [of s p recDef data] Continue by simp
  show ?thesis
  proof (cases "fieldLoop p recDef recVals 0 (FieldDefinitions recDef) [] s1")
    case (Continue flds s2)
    have "handlerCalls s1 s2"
      using fieldLoop_calls [of s1 p recDef recVals 0 "FieldDefinitions recDef" "[]"] Continue by simp
    with c1 have "handlerCalls s s2" by (rule handlerCalls_trans)
    moreover have "processRecord p recDef data s = assemble p recDef flds s2"
      using \<open>readRecord p recDef data s = Continue recVals s1\<close> Continue
      by (simp add: processRecord_def)
    ultimately show ?thesis unfolding lineStep_def by blast
  next
    case (Returned err s2)
    have "handlerCalls s1 s2"
      using fieldLoop_calls [of s1 p recDef recVals 0 "FieldDefinitions recDef" "[]"] Returned by simp
    with c1 have "handlerCalls s s2" by (rule handlerCalls_trans)
    then show ?thesis
      using \<open>readRecord p recDef data s = Continue recVals s1\<close> Returned
      by (simp add: processRecord_def lineStep_def)
  next
    case (Panicked s2)
    have "handlerCalls s1 s2"
      using fieldLoop_calls [of s1 p recDef recVals 0 "FieldDefinitions recDef" "[]"] Panicked by simp
    with c1 have "handlerCalls s s2" by (rule handlerCalls_trans)
    then show ?thesis
      using \<open>readRecord p recDef data s = Continue recVals s1\<close> Panicked
      by (simp add: processRecord_def lineStep_def)
  qed
next
  case (Returned err s1)
  then show ?thesis
    using readRecord_calls [of s p recDef data] by (simp add: processRecord_def lineStep_def)
next
  case (Panicked s1)
  then show ?thesis
    using readRecord_calls [of s p recDef data] by (simp add: processRecord_def lineStep_def)
qed

lemma scanDefs_lineStep: "lineStep p s (scanDefs rx p data recDefs s)"
proof (induction recDefs arbitrary: s)
  case Nil
  show ?case by (simp add: lineStep_def handlerCalls_refl)
next
  case (Cons d recDefs)
  show ?case
  proof (cases d)
    case None
    then show ?thesis by (simp add: lineStep_def handlerCalls_refl)
  next
    case (Some recDef)
    obtain match err where m: "Match rx recDef (bytes data) = (match, err)" by (cases "Match rx recDef (bytes data)")
    let ?s1 = "s\<lparr>trace := trace s @ [HandlerCall (ConfigurationError err)]\<rparr>"
    have c: "handlerCalls s ?s1" by (rule handlerCalls_one)
    show ?thesis
    proof (cases "ErrorHandler p (ConfigurationError err)")
      case (Some e)
      then show ?thesis using c \<open>d = Some recDef\<close> m by (simp add: handle_def lineStep_def)
    next
      case None
      have "lineStep p ?s1 (if \<not> match then scanDefs rx p data recDefs ?s1 else processRecord p recDef data ?s1)"
        using Cons.IH processRecord_lineStep by simp
      with c have "lineStep p s (if \<not> match then scanDefs rx p data recDefs ?s1 else processRecord p recDef data ?s1)"
        by (rule lineStep_calls)
      then show ?thesis using None \<open>d = Some recDef\<close> m by (simp add: handle_def)
    qed
  qed
qed

text \<open>Two rules for invariants of the loop over the lines: one for every outcome, one
  for the runs that go on.\<close>

lemma scanLines_all:
  assumes calls: "\<And>s s'. handlerCalls s s' \<Longrightarrow> P s \<Longrightarrow> P s'"
      and line: "\<And>s. P s \<Longrightarrow> P (s\<lparr>lineNum := lineNum s + 1\<rparr>)"
      and asm: "\<And>recDef flds s. P s \<Longrightarrow> P (state_of (assemble p recDef flds s))"
  shows "P s \<Longrightarrow> P (state_of (scanLines rx p source s))"
proof (induction source arbitrary: s)
  case Nil
  then show ?case by simp
next
  case (Cons l source)
  let ?s0 = "s\<lparr>lineNum := lineNum s + 1\<rparr>"
  let ?r = "scanDefs rx p l (RecordDefinitions p) ?s0"
  have P0: "P ?s0" using Cons.prems by (rule line)
  have "lineStep p ?s0 ?r" by (rule scanDefs_lineStep)
  then have Pr: "P (state_of ?r)"
    unfolding lineStep_def
  proof (elim disjE exE conjE)
    assume "handlerCalls ?s0 (state_of ?r)"
    then show ?thesis using P0 by (rule calls)
  next
    fix recDef flds s2
    assume h: "handlerCalls ?s0 s2" and r: "?r = assemble p recDef flds s2"
    from h P0 have "P s2" by (rule calls)
    then have "P (state_of (assemble p recDef flds s2))" by (rule asm)
    then show ?thesis by (simp only: r)
  qed
  show ?case
  proof (cases ?r)
    case (Continue u s1)
    then show ?thesis using Pr Cons.IH [of s1] by simp
  next
    case (Returned err s1)
    then show ?thesis using Pr by simp
  next
    case (Panicked s1)
    then show ?thesis using Pr by simp
  qed
qed

lemma scanLines_continue:
  assumes calls: "\<And>s s'. handlerCalls s s' \<Longrightarrow> P s \<Longrightarrow> P s'"
      and line: "\<And>s. P s \<Longrightarrow> P (s\<lparr>lineNum := lineNum s + 1\<rparr>)"
      and asm: "\<And>recDef flds s s'. P s \<Longrightarrow> assemble p recDef flds s = Continue () s' \<Longrightarrow> P s'"
  shows "P s \<Longrightarrow> scanLines rx p source s = Continue () s' \<Longrightarrow> P s'"
proof (induction source arbitrary: s)
  case Nil
  then show ?case by simp
next
  case (Cons l source)
  let ?s0 = "s\<lparr>lineNum := lineNum s + 1\<rparr>"
  let ?r = "scanDefs rx p l (RecordDefinitions p) ?s0"
  have P0: "P ?s0" using Cons.prems(1) by (rule line)
  from Cons.prems(2) obtain s1 where r: "?r = Continue () s1"
    and rest: "scanLines rx p source s1 = Continue () s'"
    by (auto split: result.splits)
  have "lineStep p ?s0 ?r" by (rule scanDefs_lineStep)
  then have "P s1"
    unfolding lineStep_def
  proof (elim disjE exE conjE)
    assume "handlerCalls ?s0 (state_of ?r)"
    then have "handlerCalls ?s0 s1" by (simp only: r state_of.simps)
    then show ?thesis using P0 by (rule calls)
  next
    fix recDef flds s2
    assume h: "handlerCalls ?s0 s2" and a: "?r = assemble p recDef flds s2"
    from h P0 have "P s2" by (rule calls)
    moreover from a r have "assemble p recDef flds s2 = Continue () s1" by simp
    ultimately show ?thesis by (rule asm)
  qed
  then show ?case using rest by (rule Cons.IH)
qed

lemma scanLines_append:
  "scanLines rx p (xs @ ys) s =
     (case scanLines rx p xs s of
        Continue u s1 \<Rightarrow> scanLines rx p ys s1
      | Returned err s1 \<Rightarrow> Returned err s1
      | Panicked s1 \<Rightarrow> Panicked s1)"
  by (induction xs arbitrary: s) (auto split: result.splits)

subsection \<open>The phases of assemble\<close>

lemma splitPhase_state:
  "state_of (splitPhase p recDef rec s) =
     (if RecordDefinition.Name recDef = SplitOnRecordName p then
        (case splitRec s of
           None \<Rightarrow> installSplit rec s
         | Some prev \<Rightarrow>
             (case RecordProcessor p (heap s) (Some prev) of
                Some err \<Rightarrow> s\<lparr>trace := trace s @ [ProcessorCall (Some prev)]\<rparr>
              | None \<Rightarrow> installSplit rec (s\<lparr>trace := trace s @ [ProcessorCall (Some prev)]\<rparr>)))
      else s)"
  by (simp add: splitPhase_def process_def split: option.splits)

lemma attachPhase_state:
  "state_of (attachPhase p recDef rec s) =
     (case lastRecords s (ParentRecordName recDef) of
        Some parent \<Rightarrow>
          if isWithinSplit (heap s parent) then
            s\<lparr>heap := ((heap s)(rec := (heap s rec)\<lparr>isWithinSplit := True\<rparr>))
                 (parent := (((heap s)(rec := (heap s rec)\<lparr>isWithinSplit := True\<rparr>)) parent)
                    \<lparr>Children := Children (((heap s)(rec := (heap s rec)\<lparr>isWithinSplit := True\<rparr>)) parent) @ [rec]\<rparr>)\<rparr>
          else s\<lparr>heap := (heap s)(rec := (heap s rec)\<lparr>Parent := Some parent\<rparr>)\<rparr>
      | None \<Rightarrow>
          if ParentRecordName recDef \<noteq> '''' then
            s\<lparr>trace := trace s @ [HandlerCall (Some (noParent recDef (lineNum s)))]\<rparr>
          else s)"
  by (simp add: attachPhase_def handled_state Let_def split: option.splits)

lemma assemble_state:
  "state_of (assemble p recDef flds s) =
     (case splitPhase p recDef (nextAddr s) (allocRecord recDef flds s) of
        Continue u s1 \<Rightarrow> state_of (attachPhase p recDef (nextAddr s) s1)
      | Returned err s1 \<Rightarrow> s1
      | Panicked s1 \<Rightarrow> s1)"
  by (simp add: assemble_def split: result.splits)

lemma attachPhase_splitRec: "splitRec (state_of (attachPhase p recDef rec s)) = splitRec s"
  by (simp add: attachPhase_state split: option.splits)

lemma attachPhase_trace: "set (trace s) \<subseteq> set (trace (state_of (attachPhase p recDef rec s)))"
  by (auto simp: attachPhase_state split: option.splits)

lemma attachPhase_names:
  "Record.Name (heap (state_of (attachPhase p recDef rec s)) a) = Record.Name (heap s a)"
  by (simp add: attachPhase_state split: option.splits)

lemma attachPhase_nextAddr: "nextAddr (state_of (attachPhase p recDef rec s)) = nextAddr s"
  by (simp add: attachPhase_state split: option.splits)

lemma assemble_lineNum: "lineNum (state_of (assemble p recDef flds s)) = lineNum s"
  by (simp add: assemble_state splitPhase_def attachPhase_state installSplit_def allocRecord_def
      process_def split: option.splits)

lemma scanLines_lineNum:
  "scanLines rx p source s = Continue () s' \<Longrightarrow> lineNum s' = lineNum s + length source"
proof (induction source arbitrary: s)
  case Nil
  then show ?case by simp
next
  case (Cons l source)
  let ?s0 = "s\<lparr>lineNum := lineNum s + 1\<rparr>"
  let ?r = "scanDefs rx p l (RecordDefinitions p) ?s0"
  from Cons.prems obtain s1 where r: "?r = Continue () s1"
    and rest: "scanLines rx p source s1 = Continue () s'"
    by (auto split: result.splits)
  have "lineStep p ?s0 ?r" by (rule scanDefs_lineStep)
  then have "lineNum s1 = lineNum ?s0"
    unfolding lineStep_def
  proof (elim disjE exE conjE)
    assume "handlerCalls ?s0 (state_of ?r)"
    then have "handlerCalls ?s0 s1" by (simp only: r state_of.simps)
    then show ?thesis by (rule handlerCalls_same)
  next
    fix recDef flds s2
    assume h: "handlerCalls ?s0 s2" and a: "?r = assemble p recDef flds s2"
    from a r have "state_of (assemble p recDef flds s2) = s1" by simp
    then have "lineNum s1 = lineNum s2" using assemble_lineNum [of p recDef flds s2] by simp
    also from h have "lineNum s2 = lineNum ?s0" by (rule handlerCalls_same)
    finally show ?thesis .
  qed
  with Cons.IH [OF rest] show ?case by simp
qed

lemma finish_heap: "heap (state_of (finish p s)) = heap s"
  by (simp add: finish_def process_def handle_def split: prod.splits)

lemma assemble_no_parent:
  assumes "splitPhase p recDef (nextAddr s) (allocRecord recDef flds s) = Continue () s1"
      and "ParentRecordName recDef \<noteq> ''''"
      and "ParentRecordName recDef \<noteq> RecordDefinition.Name recDef"
      and "lastRecords s (ParentRecordName recDef) = None"
  shows "assemble p recDef flds s =
     (case ErrorHandler p (Some (noParent recDef (lineNum s))) of
        Some err \<Rightarrow> Returned (Some err) (s1\<lparr>trace := trace s1 @ [HandlerCall (Some (noParent recDef (lineNum s)))]\<rparr>)
      | None \<Rightarrow> Continue () (s1\<lparr>trace := trace s1 @ [HandlerCall (Some (noParent recDef (lineNum s)))]\<rparr>))"
proof -
  from assms(1) have "lastRecords s1 = (lastRecords s)(RecordDefinition.Name recDef \<mapsto> nextAddr s)"
    and "lineNum s1 = lineNum s"
    by (auto simp: splitPhase_def allocRecord_def newRecord_def installSplit_def process_def
        split: if_splits option.splits prod.splits)
  with assms show ?thesis
    by (auto simp: assemble_def attachPhase_def handled_def handle_def split: option.splits)
qed

subsection \<open>Records that Parse no longer points to\<close>

lemma keeps_alloc: "keeps u r s \<Longrightarrow> keeps u r (allocRecord recDef flds s)"
  by (auto simp: keeps_def detached_def allocRecord_def)

lemma keeps_splitPhase:
  "keeps u r s \<Longrightarrow> rec \<noteq> u \<Longrightarrow> keeps u r (state_of (splitPhase p recDef rec s))"
  by (auto simp: keeps_def detached_def splitPhase_state installSplit_def split: option.splits)

lemma keeps_attachPhase:
  "keeps u r s \<Longrightarrow> rec \<noteq> u \<Longrightarrow> keeps u r (state_of (attachPhase p recDef rec s))"
  by (auto simp: keeps_def detached_def attachPhase_state split: option.splits)

lemma keeps_assemble:
  assumes "keeps u r s"
  shows "keeps u r (state_of (assemble p recDef flds s))"
proof -
  from assms have ne: "nextAddr s \<noteq> u" by (auto simp: keeps_def detached_def)
  have k1: "keeps u r (state_of (splitPhase p recDef (nextAddr s) (allocRecord recDef flds s)))"
    using assms ne by (intro keeps_splitPhase keeps_alloc)
  show ?thesis
  proof (cases "splitPhase p recDef (nextAddr s) (allocRecord recDef flds s)")
    case (Continue x s1)
    with k1 have "keeps u r s1" by simp
    then have "keeps u r (state_of (attachPhase p recDef (nextAddr s) s1))"
      using ne by (rule keeps_attachPhase)
    then show ?thesis using Continue by (simp add: assemble_state)
  next
    case (Returned err s1)
    with k1 show ?thesis by (simp add: assemble_state)
  next
    case (Panicked s1)
    with k1 show ?thesis by (simp add: assemble_state)
  qed
qed

lemma keeps_calls: "handlerCalls s s' \<Longrightarrow> keeps u r s \<Longrightarrow> keeps u r s'"
  by (auto simp: handlerCalls_def keeps_def detached_def)

lemma keeps_lineNum: "keeps u r s \<Longrightarrow> keeps u r (s\<lparr>lineNum := n\<rparr>)"
  by (simp add: keeps_def detached_def)

lemma keeps_scanLines: "keeps u r s \<Longrightarrow> keeps u r (state_of (scanLines rx p source s))"
  by (rule scanLines_all [where P = "keeps u r"]) (auto intro: keeps_calls keeps_lineNum keeps_assemble)

lemma wellFormed_splitPhase:
  assumes "wellFormed p s"
      and "splitPhase p recDef (nextAddr s) (allocRecord recDef flds s) = Continue () s1"
  shows "wellFormed p s1"
proof -
  from assms(2) have s1: "s1 = state_of (splitPhase p recDef (nextAddr s) (allocRecord recDef flds s))"
    by simp
  from assms(1) have old: "\<And>k. lastRecords s k \<noteq> Some (nextAddr s)"
    by (auto simp: wellFormed_def)
  show ?thesis
    unfolding s1 splitPhase_state using assms(1) old
    by (auto simp: wellFormed_def installSplit_def allocRecord_def less_Suc_eq
        split: option.splits if_splits)
qed

lemma wellFormed_attachPhase:
  "wellFormed p s \<Longrightarrow> wellFormed p (state_of (attachPhase p recDef rec s))"
  by (auto simp: wellFormed_def attachPhase_state split: option.splits)

lemma wellFormed_assemble:
  assumes "wellFormed p s" and "assemble p recDef flds s = Continue () s'"
  shows "wellFormed p s'"
proof (cases "splitPhase p recDef (nextAddr s) (allocRecord recDef flds s)")
  case (Continue x s1)
  with assms(1) have "wellFormed p s1" by (simp add: wellFormed_splitPhase)
  then have "wellFormed p (state_of (attachPhase p recDef (nextAddr s) s1))"
    by (rule wellFormed_attachPhase)
  then show ?thesis using Continue assms(2) by (simp add: assemble_def)
next
  case (Returned err s1)
  then show ?thesis using assms(2) by (simp add: assemble_def)
next
  case (Panicked s1)
  then show ?thesis using assms(2) by (simp add: assemble_def)
qed

lemma wellFormed_calls: "handlerCalls s s' \<Longrightarrow> wellFormed p s \<Longrightarrow> wellFormed p s'"
  by (auto simp: handlerCalls_def wellFormed_def)

lemma wellFormed_lineNum: "wellFormed p s \<Longrightarrow> wellFormed p (s\<lparr>lineNum := n\<rparr>)"
  by (simp add: wellFormed_def)

lemma wellFormed_init: "wellFormed p initState"
  by (simp add: wellFormed_def initState_def)

lemma wellFormed_scanLines:
  "wellFormed p s \<Longrightarrow> scanLines rx p source s = Continue () s' \<Longrightarrow> wellFormed p s'"
  by (rule scanLines_continue [where P = "wellFormed p"])
     (auto intro: wellFormed_calls wellFormed_lineNum wellFormed_assemble)

lemma splitPhase_emits:
  assumes "wellFormed p s" and "splitRec s = Some u"
      and "splitPhase p recDef (nextAddr s) (allocRecord recDef flds s) = Continue () s1"
      and "splitRec s1 \<noteq> Some u"
  shows "keeps u (heap s u) s1 \<and> ProcessorCall (Some u) \<in> set (trace s1)"
proof -
  from assms(3) have s1: "s1 = state_of (splitPhase p recDef (nextAddr s) (allocRecord recDef flds s))"
    by simp
  from assms(1,2) have u: "u < nextAddr s"
    and only: "\<And>k. lastRecords s k = Some u \<Longrightarrow> k = SplitOnRecordName p"
    by (auto simp: wellFormed_def)
  show ?thesis
    using assms(2,4) u only unfolding s1 splitPhase_state
    by (auto simp: keeps_def detached_def installSplit_def allocRecord_def
        split: option.splits if_splits)
qed

lemma assemble_emits:
  assumes "wellFormed p s" and "splitRec s = Some u"
      and "assemble p recDef flds s = Continue () s'" and "splitRec s' \<noteq> Some u"
  shows "keeps u (heap s u) s' \<and> ProcessorCall (Some u) \<in> set (trace s')"
proof (cases "splitPhase p recDef (nextAddr s) (allocRecord recDef flds s)")
  case (Continue x s1)
  then have s': "s' = state_of (attachPhase p recDef (nextAddr s) s1)"
    using assms(3) by (simp add: assemble_def)
  then have "splitRec s1 \<noteq> Some u" using assms(4) by (simp add: attachPhase_splitRec)
  with assms(1,2) Continue have k: "keeps u (heap s u) s1" and t: "ProcessorCall (Some u) \<in> set (trace s1)"
    using splitPhase_emits by auto
  from assms(1,2) have "nextAddr s \<noteq> u" by (auto simp: wellFormed_def)
  with k have "keeps u (heap s u) s'" unfolding s' by (rule keeps_attachPhase)
  moreover from t have "ProcessorCall (Some u) \<in> set (trace s')"
    unfolding s' using attachPhase_trace by blast
  ultimately show ?thesis ..
next
  case (Returned err s1)
  then show ?thesis using assms(3) by (simp add: assemble_def)
next
  case (Panicked s1)
  then show ?thesis using assms(3) by (simp add: assemble_def)
qed

lemma line_emits:
  assumes wf: "wellFormed p s" and u: "splitRec s = Some u"
      and step: "scanLines rx p [ln] s = Continue () s1" and gone: "splitRec s1 \<noteq> Some u"
  shows "keeps u (heap s u) s1 \<and> ProcessorCall (Some u) \<in> set (trace s1)"
proof -
  let ?s0 = "s\<lparr>lineNum := lineNum s + 1\<rparr>"
  let ?r = "scanDefs rx p ln (RecordDefinitions p) ?s0"
  from step have r: "?r = Continue () s1" by (auto split: result.splits)
  have "lineStep p ?s0 ?r" by (rule scanDefs_lineStep)
  then show ?thesis
    unfolding lineStep_def
  proof (elim disjE exE conjE)
    assume "handlerCalls ?s0 (state_of ?r)"
    then have "handlerCalls ?s0 s1" by (simp only: r state_of.simps)
    then have "splitRec s1 = splitRec ?s0" by (rule handlerCalls_same)
    with u gone show ?thesis by simp
  next
    fix recDef flds s2
    assume h: "handlerCalls ?s0 s2" and a: "?r = assemble p recDef flds s2"
    from a r have c: "assemble p recDef flds s2 = Continue () s1" by simp
    from wf have "wellFormed p ?s0" by (rule wellFormed_lineNum)
    with h have wf2: "wellFormed p s2" by (rule wellFormed_calls)
    from h have "splitRec s2 = splitRec ?s0" and hp: "heap s2 = heap ?s0" by (rule handlerCalls_same)+
    with u have u2: "splitRec s2 = Some u" by simp
    from assemble_emits [OF wf2 u2 c gone] hp show ?thesis by simp
  qed
qed

subsection \<open>The calls of the RecordProcessor\<close>

lemma emitted_append: "emitted (xs @ ys) = emitted xs @ emitted ys"
  by (induction xs rule: emitted.induct) simp_all

lemma emitted_calls: "emitted (map HandlerCall errs) = []"
  by (induction errs) simp_all

lemma attachPhase_emitted:
  "emitted (trace (state_of (attachPhase p recDef rec s))) = emitted (trace s)"
  by (simp add: attachPhase_state emitted_append split: option.splits)

lemma handoff_calls: "handlerCalls s s' \<Longrightarrow> handoff p s \<Longrightarrow> handoff p s'"
  by (auto simp: handlerCalls_def handoff_def splitRecords_def emitted_append emitted_calls)

lemma handoff_lineNum: "handoff p s \<Longrightarrow> handoff p (s\<lparr>lineNum := n\<rparr>)"
  by (simp add: handoff_def splitRecords_def)

lemma handoff_init: "handoff p initState"
  by (simp add: handoff_def splitRecords_def initState_def)

lemma splitRecords_alloc:
  assumes "nextAddr s' = Suc (nextAddr s)"
      and "\<And>a. Record.Name (heap s' a) =
             (if a = nextAddr s then RecordDefinition.Name recDef else Record.Name (heap s a))"
  shows "splitRecords p s' = splitRecords p s @
           (if RecordDefinition.Name recDef = SplitOnRecordName p then [nextAddr s] else [])"
proof -
  have "filter (\<lambda>a. Record.Name (heap s' a) = SplitOnRecordName p) [0..<nextAddr s] =
        filter (\<lambda>a. Record.Name (heap s a) = SplitOnRecordName p) [0..<nextAddr s]"
    by (rule filter_cong) (simp_all add: assms(2))
  then show ?thesis
    by (simp add: splitRecords_def assms)
qed

lemma handoff_assemble:
  assumes h: "handoff p s" and c: "assemble p recDef flds s = Continue () s'"
  shows "handoff p s'"
proof (cases "splitPhase p recDef (nextAddr s) (allocRecord recDef flds s)")
  case (Continue x s1)
  then have s': "s' = state_of (attachPhase p recDef (nextAddr s) s1)"
    using c by (simp add: assemble_def)
  from Continue have s1: "s1 = state_of (splitPhase p recDef (nextAddr s) (allocRecord recDef flds s))"
    by simp
  have n: "nextAddr s1 = Suc (nextAddr s)"
    unfolding s1 splitPhase_state
    by (simp add: installSplit_def allocRecord_def split: option.splits)
  have names: "\<And>a. Record.Name (heap s1 a) =
             (if a = nextAddr s then RecordDefinition.Name recDef else Record.Name (heap s a))"
    unfolding s1 splitPhase_state
    by (simp add: installSplit_def allocRecord_def newRecord_def split: option.splits)
  have recs: "splitRecords p s1 = splitRecords p s @
           (if RecordDefinition.Name recDef = SplitOnRecordName p then [nextAddr s] else [])"
    using n names by (rule splitRecords_alloc)
  have "handoff p s1"
  proof (cases "RecordDefinition.Name recDef = SplitOnRecordName p")
    case False
    then have "splitRec s1 = splitRec s" and "trace s1 = trace s"
      unfolding s1 splitPhase_state by (simp_all add: allocRecord_def)
    with h recs False show ?thesis by (simp add: handoff_def)
  next
    case True
    then have "splitRec s1 = Some (nextAddr s)"
      and "emitted (trace s1) = emitted (trace s) @ inFlight (splitRec s)"
      using Continue unfolding s1 splitPhase_state
      by (auto simp: installSplit_def allocRecord_def emitted_append splitPhase_def process_def
          split: option.splits)
    with h recs True show ?thesis by (simp add: handoff_def)
  qed
  then show ?thesis
    unfolding s' handoff_def splitRecords_def
    by (simp add: attachPhase_names attachPhase_nextAddr attachPhase_emitted attachPhase_splitRec)
next
  case (Returned err s1)
  then show ?thesis using c by (simp add: assemble_def)
next
  case (Panicked s1)
  then show ?thesis using c by (simp add: assemble_def)
qed

lemma handoff_scanLines:
  "handoff p s \<Longrightarrow> scanLines rx p source s = Continue () s' \<Longrightarrow> handoff p s'"
  by (rule scanLines_continue [where P = "handoff p"])
     (auto intro: handoff_calls handoff_lineNum handoff_assemble)

lemma handoff_final:
  assumes "handoff p s"
  shows "emitted (trace s) @ [splitRec s] =
         (if splitRecords p s = [] then [None] else map Some (splitRecords p s))"
proof (cases "splitRec s")
  case None
  with assms show ?thesis by (auto simp: handoff_def)
next
  case (Some u)
  with assms have "emitted (trace s) @ [Some u] = map Some (splitRecords p s)"
    by (simp add: handoff_def)
  then show ?thesis using Some by (cases "splitRecords p s = []") auto
qed

subsection \<open>What lastRecords holds\<close>

lemma registered_init: "registered initState"
  by (simp add: registered_def initState_def)

lemma registered_calls: "handlerCalls s s' \<Longrightarrow> registered s \<Longrightarrow> registered s'"
  by (auto simp: handlerCalls_def registered_def)

lemma registered_lineNum: "registered s \<Longrightarrow> registered (s\<lparr>lineNum := n\<rparr>)"
  by (simp add: registered_def)

lemma splitPhase_registered:
  assumes "splitPhase p recDef (nextAddr s) (allocRecord recDef flds s) = Continue () s1"
  shows "nextAddr s1 = Suc (nextAddr s)"
    and "lastRecords s1 = (lastRecords s)(RecordDefinition.Name recDef \<mapsto> nextAddr s)"
    and "Record.Name (heap s1 a) =
           (if a = nextAddr s then RecordDefinition.Name recDef else Record.Name (heap s a))"
proof -
  from assms have s1: "s1 = state_of (splitPhase p recDef (nextAddr s) (allocRecord recDef flds s))"
    by simp
  show "nextAddr s1 = Suc (nextAddr s)"
    unfolding s1 splitPhase_state
    by (simp add: installSplit_def allocRecord_def split: option.splits)
  show "lastRecords s1 = (lastRecords s)(RecordDefinition.Name recDef \<mapsto> nextAddr s)"
    unfolding s1 splitPhase_state
    by (simp add: installSplit_def allocRecord_def split: option.splits)
  show "Record.Name (heap s1 a) =
           (if a = nextAddr s then RecordDefinition.Name recDef else Record.Name (heap s a))"
    unfolding s1 splitPhase_state
    by (simp add: installSplit_def allocRecord_def newRecord_def split: option.splits)
qed

lemma attachPhase_lastRecords:
  "lastRecords (state_of (attachPhase p recDef rec s)) = lastRecords s"
  by (simp add: attachPhase_state split: option.splits)

lemma registered_assemble:
  assumes r: "registered s" and c: "assemble p recDef flds s = Continue () s'"
  shows "registered s'"
proof (cases "splitPhase p recDef (nextAddr s) (allocRecord recDef flds s)")
  case (Continue x s1)
  then have s': "s' = state_of (attachPhase p recDef (nextAddr s) s1)"
    using c by (simp add: assemble_def)
  from Continue have sp: "splitPhase p recDef (nextAddr s) (allocRecord recDef flds s) = Continue () s1"
    by simp
  note f = splitPhase_registered [OF sp]
  have "registered s1"
    unfolding registered_def
  proof
    fix k
    show "(lastRecords s1 k = None) = (\<forall>a<nextAddr s1. Record.Name (heap s1 a) \<noteq> k)"
      using r unfolding registered_def f(1) f(2) f(3)
      by (auto simp: less_Suc_eq)
  qed
  then show ?thesis
    unfolding s' registered_def
    by (simp add: attachPhase_names attachPhase_nextAddr attachPhase_lastRecords)
next
  case (Returned err s1)
  then show ?thesis using c by (simp add: assemble_def)
next
  case (Panicked s1)
  then show ?thesis using c by (simp add: assemble_def)
qed

lemma registered_scanLines:
  "registered s \<Longrightarrow> scanLines rx p source s = Continue () s' \<Longrightarrow> registered s'"
  by (rule scanLines_continue [where P = registered])
     (auto intro: registered_calls registered_lineNum registered_assemble)

lemma lastRecords_built:
  assumes "scanLines rx p source initState = Continue () s"
  shows "(lastRecords s k = None) = (\<forall>a < nextAddr s. Record.Name (heap s a) \<noteq> k)"
proof -
  have "registered s"
    using registered_init assms by (rule registered_scanLines)
  then show ?thesis by (simp add: registered_def)
qed

subsection \<open>The most recent record of each type\<close>

lemma mostRecent_step:
  assumes "nextAddr s' = Suc (nextAddr s)"
      and "\<And>a. Record.Name (heap s' a) = (if a = nextAddr s then name else Record.Name (heap s a))"
  shows "mostRecent k s' = (if k = name then Some (nextAddr s) else mostRecent k s)"
proof -
  have "filter (\<lambda>a. Record.Name (heap s' a) = k) (rev [0..<nextAddr s]) =
        filter (\<lambda>a. Record.Name (heap s a) = k) (rev [0..<nextAddr s])"
    by (rule filter_cong) (simp_all add: assms(2))
  then show ?thesis
    by (simp add: mostRecent_def assms)
qed

lemma mostRecent_same:
  assumes "nextAddr s' = nextAddr s"
      and "\<And>a. Record.Name (heap s' a) = Record.Name (heap s a)"
  shows "mostRecent k s' = mostRecent k s"
  by (simp add: mostRecent_def assms)

lemma latestRegistered_init: "latestRegistered initState"
  by (simp add: latestRegistered_def mostRecent_def initState_def)

lemma latestRegistered_calls: "handlerCalls s s' \<Longrightarrow> latestRegistered s \<Longrightarrow> latestRegistered s'"
  by (auto simp: handlerCalls_def latestRegistered_def mostRecent_def)

lemma latestRegistered_lineNum: "latestRegistered s \<Longrightarrow> latestRegistered (s\<lparr>lineNum := n\<rparr>)"
  by (simp add: latestRegistered_def mostRecent_def)

lemma latestRegistered_splitPhase:
  assumes r: "latestRegistered s"
      and sp: "splitPhase p recDef (nextAddr s) (allocRecord recDef flds s) = Continue () s1"
  shows "latestRegistered s1"
proof -
  note f = splitPhase_registered [OF sp]
  have "mostRecent k s1 =
      (if k = RecordDefinition.Name recDef then Some (nextAddr s) else mostRecent k s)" for k
    using f(1) f(3) by (rule mostRecent_step)
  with r show ?thesis
    by (simp add: latestRegistered_def f(2))
qed

lemma latestRegistered_attachPhase:
  "latestRegistered s \<Longrightarrow> latestRegistered (state_of (attachPhase p recDef rec s))"
  unfolding latestRegistered_def
  by (simp add: attachPhase_lastRecords
      mostRecent_same [OF attachPhase_nextAddr attachPhase_names])

lemma latestRegistered_assemble:
  assumes r: "latestRegistered s" and c: "assemble p recDef flds s = Continue () s'"
  shows "latestRegistered s'"
proof (cases "splitPhase p recDef (nextAddr s) (allocRecord recDef flds s)")
  case (Continue x s1)
  then have sp: "splitPhase p recDef (nextAddr s) (allocRecord recDef flds s) = Continue () s1"
    by simp
  from r sp have "latestRegistered s1" by (rule latestRegistered_splitPhase)
  then have "latestRegistered (state_of (attachPhase p recDef (nextAddr s) s1))"
    by (rule latestRegistered_attachPhase)
  then show ?thesis using Continue c by (simp add: assemble_def)
next
  case (Returned err s1)
  then show ?thesis using c by (simp add: assemble_def)
next
  case (Panicked s1)
  then show ?thesis using c by (simp add: assemble_def)
qed

lemma latestRegistered_scanLines:
  "latestRegistered s \<Longrightarrow> scanLines rx p source s = Continue () s' \<Longrightarrow> latestRegistered s'"
  by (rule scanLines_continue [where P = latestRegistered])
     (auto intro: latestRegistered_calls latestRegistered_lineNum latestRegistered_assemble)

lemma attach_at_entry:
  assumes "splitPhase p recDef (nextAddr s) (allocRecord recDef flds s) = Continue () s1"
      and "lastRecords s1 (ParentRecordName recDef) = Some parent"
  shows "\<exists>s'. assemble p recDef flds s = Continue () s' \<and>
         (if isWithinSplit (heap s1 parent)
          then Children (heap s' parent) = Children (heap s1 parent) @ [nextAddr s] \<and>
               isWithinSplit (heap s' (nextAddr s)) \<and> Parent (heap s' (nextAddr s)) = None
          else Parent (heap s' (nextAddr s)) = Some parent \<and>
               Children (heap s' parent) = Children (heap s1 parent)) \<and>
         (\<forall>a. a \<noteq> parent \<and> a \<noteq> nextAddr s \<longrightarrow> heap s' a = heap s1 a)"
proof -
  from assms(1) have "Parent (heap s1 (nextAddr s)) = None"
    by (auto simp: splitPhase_def allocRecord_def newRecord_def installSplit_def process_def
        split: if_splits option.splits prod.splits)
  with assms show ?thesis
    by (auto simp: assemble_def attachPhase_def)
qed

subsection \<open>The values and the field definitions of a line\<close>











subsection \<open>Schema loading\<close>

lemma unknown_reader_fails:
  assumes "readerNameOf d = Some name" and "rr name = None"
  shows "\<exists>err. RecordDefinition_UnmarshalJSON rr ft d = Inl err"
proof -
  from assms(1) obtain members where d: "d = JObject members"
    and n: "map_of (rev members) ''ReaderName'' = Some (JString name)"
    by (auto simp: readerNameOf_def memberOf_def split: json.splits option.splits)
  show ?thesis
    using n assms(2)
    by (simp add: RecordDefinition_UnmarshalJSON_def d unmarshalMap_def mustUnmarshalString_def
        unmarshalStringValue_def GetRecordReaderUnmarshalFunc_def
        split: sum.splits option.splits)
qed

lemma unknown_type_fails:
  assumes "typeNameOf f = Some name" and "ft name = None"
  shows "\<exists>err. FieldDefinition_UnmarshalJSON ft f = Inl err"
proof -
  from assms(1) obtain members where f: "f = JObject members"
    and n: "map_of (rev members) ''TypeName'' = Some (JString name)"
    by (auto simp: typeNameOf_def memberOf_def split: json.splits option.splits)
  show ?thesis
    using n assms(2)
    by (simp add: FieldDefinition_UnmarshalJSON_def f unmarshalMap_def mustUnmarshalString_def
        unmarshalStringValue_def GetFieldTypeUnmarshalFunc_def
        split: sum.splits option.splits)
qed

lemma fields_loop_fails:
  "f \<in> set elems \<Longrightarrow> FieldDefinition_UnmarshalJSON ft f = Inl err \<Longrightarrow>
   \<exists>err'. unmarshalFieldDefinitions_loop ft elems = Inl err'"
  by (induction elems) (auto split: sum.splits)

lemma unknown_field_type_fails:
  assumes "f \<in> set (fieldDefinitionsOf d)" and "typeNameOf f = Some name" and "ft name = None"
  shows "\<exists>err. RecordDefinition_UnmarshalJSON rr ft d = Inl err"
proof -
  from assms(1) obtain members elems where d: "d = JObject members"
    and m: "map_of (rev members) ''FieldDefinitions'' = Some (JArray elems)" and f: "f \<in> set elems"
    by (cases d; cases "memberOf d ''FieldDefinitions''")
       (auto simp: fieldDefinitionsOf_def memberOf_def split: json.splits)
  from assms(2,3) have "\<exists>e. FieldDefinition_UnmarshalJSON ft f = Inl e"
    by (rule unknown_type_fails)
  then obtain e where "FieldDefinition_UnmarshalJSON ft f = Inl e" ..
  with f obtain e' where "unmarshalFieldDefinitions_loop ft elems = Inl e'"
    using fields_loop_fails by blast
  then show ?thesis
    using m
    by (simp add: RecordDefinition_UnmarshalJSON_def d unmarshalMap_def unmarshalFieldDefinitions_def
        split: sum.splits option.splits)
qed

lemma decode_fails:
  "d \<in> set elems \<Longrightarrow> d \<noteq> JNull \<Longrightarrow> RecordDefinition_UnmarshalJSON rr ft d = Inl err \<Longrightarrow>
   \<exists>err'. decodeRecordDefinitions rr ft elems = Inl err'"
  by (induction elems) (auto split: sum.splits)

subsection \<open>The fixed-width reader within the line\<close>

lemma Read_loop_in_range:
  "\<forall>coord \<in> set coords. 0 \<le> Start coord \<and> Start coord \<le> End coord \<and>
       End coord \<le> int (length (bytes data)) \<Longrightarrow>
   Read_loop coords data =
     Returns (map (\<lambda>coord. take (nat (End coord) - nat (Start coord))
                               (drop (nat (Start coord)) (bytes data))) coords)"
  by (induction coords) (auto simp: slice_expr_def)

lemma Read_never_errors:
  "FixedWidthRecordReader_Read coords data \<noteq> Returns (values, Some err)"
  by (simp add: FixedWidthRecordReader_Read_def split: go.splits)

section \<open>The claims\<close>

text \<open>
  C1. When a record of the split type (its name is SplitOnRecordName) has been built while
  a split record is in flight, assemble passes the previous split record to the
  RecordProcessor and only then installs the new record as splitRec; an error of the
  processor makes Parse return before the installation. When the loop over the lines has
  ended, Parse passes splitRec to the RecordProcessor once more and returns what the
  ErrorHandler makes of the result. Over such a call the processor has received every
  record of the split type exactly once, in the order they were built, the last one at
  the end of the input also when it is the only one; if no record of the split type was
  built, it has received nil, once.
\<close>

theorem split_record_handoff:
  "(RecordDefinition.Name recDef = SplitOnRecordName p \<and> splitRec s = Some prev \<longrightarrow>
      assemble p recDef flds s =
        (case RecordProcessor p (heap (allocRecord recDef flds s)) (Some prev) of
           Some err \<Rightarrow>
             Returned (Some err)
               ((allocRecord recDef flds s)\<lparr>trace := trace s @ [ProcessorCall (Some prev)]\<rparr>)
         | None \<Rightarrow>
             attachPhase p recDef (nextAddr s)
               (installSplit (nextAddr s)
                  ((allocRecord recDef flds s)\<lparr>trace := trace s @ [ProcessorCall (Some prev)]\<rparr>)))) \<and>
   (scanLines rx p source initState = Continue () s' \<longrightarrow>
      Parse rx p source =
        Returned (ErrorHandler p (RecordProcessor p (heap s') (splitRec s')))
          (s'\<lparr>trace := trace s' @ [ProcessorCall (splitRec s'),
                 HandlerCall (RecordProcessor p (heap s') (splitRec s'))]\<rparr>) \<and>
      emitted (trace (state_of (Parse rx p source))) =
        (if splitRecords p s' = [] then [None] else map Some (splitRecords p s')))"
proof (intro conjI impI)
  assume "RecordDefinition.Name recDef = SplitOnRecordName p \<and> splitRec s = Some prev"
  then show "assemble p recDef flds s =
        (case RecordProcessor p (heap (allocRecord recDef flds s)) (Some prev) of
           Some err \<Rightarrow>
             Returned (Some err)
               ((allocRecord recDef flds s)\<lparr>trace := trace s @ [ProcessorCall (Some prev)]\<rparr>)
         | None \<Rightarrow>
             attachPhase p recDef (nextAddr s)
               (installSplit (nextAddr s)
                  ((allocRecord recDef flds s)\<lparr>trace := trace s @ [ProcessorCall (Some prev)]\<rparr>)))"
    by (simp add: assemble_def splitPhase_def process_def allocRecord_def split: option.splits)
next
  assume c: "scanLines rx p source initState = Continue () s'"
  then show P: "Parse rx p source =
        Returned (ErrorHandler p (RecordProcessor p (heap s') (splitRec s')))
          (s'\<lparr>trace := trace s' @ [ProcessorCall (splitRec s'),
                 HandlerCall (RecordProcessor p (heap s') (splitRec s'))]\<rparr>)"
    by (simp add: Parse_def finish_def process_def handle_def)
  have "handoff p s'" using handoff_init c by (rule handoff_scanLines)
  then have "emitted (trace s') @ [splitRec s'] =
         (if splitRecords p s' = [] then [None] else map Some (splitRecords p s'))"
    by (rule handoff_final)
  then show "emitted (trace (state_of (Parse rx p source))) =
        (if splitRecords p s' = [] then [None] else map Some (splitRecords p s'))"
    unfolding P by (simp add: emitted_append)
qed

text \<open>
  The input B001, H001, L001, H002, S001: the second header hands over the first (record
  1), and the end of the input the second (record 3).
\<close>

theorem split_record_handoff_witness:
  "RecordDefinition.Name poHeader = SplitOnRecordName poParser \<and> splitRec (stateAfter 3) = Some 1 \<and>
   assemble poParser poHeader (idOf ''002'') (stateAfter 3) =
     attachPhase poParser poHeader 3
       (installSplit 3 ((allocRecord poHeader (idOf ''002'') (stateAfter 3))
          \<lparr>trace := trace (stateAfter 3) @ [ProcessorCall (Some 1)]\<rparr>)) \<and>
   scanLines caretMatch poParser poLines initState = Continue () (stateAfter 5) \<and>
   emitted (trace (state_of (Parse caretMatch poParser poLines))) = [Some 1, Some 3]"
proof -
  have h1: "RecordDefinition.Name poHeader = SplitOnRecordName poParser \<and> splitRec (stateAfter 3) = Some 1"
    by (simp add: parse_defs po_defs)
  have h2: "scanLines caretMatch poParser poLines initState = Continue () (stateAfter 5)"
    by (simp add: parse_defs po_defs)
  have n: "nextAddr (stateAfter 3) = 3" "splitRecords poParser (stateAfter 5) = [1, 3]"
    "RecordProcessor poParser = (\<lambda>h record. None)"
    by (simp_all add: splitRecords_def parse_defs po_defs)
  note t = split_record_handoff [where recDef = poHeader and p = poParser and s = "stateAfter 3"
      and prev = 1 and flds = "idOf ''002''" and rx = caretMatch and source = poLines
      and s' = "stateAfter 5"]
  from t h2 have e: "emitted (trace (state_of (Parse caretMatch poParser poLines))) =
      (if splitRecords poParser (stateAfter 5) = [] then [None]
       else map Some (splitRecords poParser (stateAfter 5)))"
    by blast
  from t h1 n have a: "assemble poParser poHeader (idOf ''002'') (stateAfter 3) =
     attachPhase poParser poHeader 3
       (installSplit 3 ((allocRecord poHeader (idOf ''002'') (stateAfter 3))
          \<lparr>trace := trace (stateAfter 3) @ [ProcessorCall (Some 1)]\<rparr>))"
    by simp
  from a e h1 h2 n show ?thesis by simp
qed

text \<open>
  C2. A line is matched after the lines \<open>before\<close>; its record has been built and
  registered, and Parse has reached the resolution of its parent (the split phase went
  on) in the state \<open>s1\<close>. The record definition names a parent type of which the store
  holds a record, and \<open>parent\<close> is the most recent one. If \<open>parent\<close> is within the split,
  the new record is appended to the Children of \<open>parent\<close>, its own isWithinSplit is set
  and its Parent stays nil. If \<open>parent\<close> is not within the split, the Parent of the new
  record points to \<open>parent\<close> and the Children of \<open>parent\<close> are as before. No other
  record of the store changes: an older record of the parent type gets nothing.
\<close>

theorem attach_to_parent:
  assumes run: "scanLines rx p before initState = Continue () s0"
      and calls: "handlerCalls (s0\<lparr>lineNum := lineNum s0 + 1\<rparr>) s"
      and split: "splitPhase p recDef (nextAddr s) (allocRecord recDef flds s) = Continue () s1"
      and latest: "mostRecent (ParentRecordName recDef) s1 = Some parent"
  shows "\<exists>s'. assemble p recDef flds s = Continue () s' \<and>
         (if isWithinSplit (heap s1 parent)
          then Children (heap s' parent) = Children (heap s1 parent) @ [nextAddr s] \<and>
               isWithinSplit (heap s' (nextAddr s)) \<and> Parent (heap s' (nextAddr s)) = None
          else Parent (heap s' (nextAddr s)) = Some parent \<and>
               Children (heap s' parent) = Children (heap s1 parent)) \<and>
         (\<forall>a. a \<noteq> parent \<and> a \<noteq> nextAddr s \<longrightarrow> heap s' a = heap s1 a)"
proof -
  have "latestRegistered s0"
    using latestRegistered_init run by (rule latestRegistered_scanLines)
  then have "latestRegistered (s0\<lparr>lineNum := lineNum s0 + 1\<rparr>)"
    by (rule latestRegistered_lineNum)
  with calls have "latestRegistered s" by (rule latestRegistered_calls)
  then have "latestRegistered s1" using split by (rule latestRegistered_splitPhase)
  with latest have "lastRecords s1 (ParentRecordName recDef) = Some parent"
    by (simp add: latestRegistered_def)
  with split show ?thesis by (rule attach_at_entry)
qed

text \<open>
  A line after a batch and two headers goes under the second header (record 2, within
  the split) and the first header (record 1) gets no child; a header after two batches
  points to the second batch (record 1, above the split), and no batch gets a child.
\<close>

theorem attach_to_parent_witness:
  "scanLines caretMatch poParser [lineOf ''B001'', lineOf ''H001'', lineOf ''H002''] initState =
     Continue () twoHeaders \<and>
   handlerCalls (twoHeaders\<lparr>lineNum := lineNum twoHeaders + 1\<rparr>) twoHeadersLine \<and>
   splitPhase poParser poLine (nextAddr twoHeadersLine)
       (allocRecord poLine (idOf ''001'') twoHeadersLine) =
     Continue () (allocRecord poLine (idOf ''001'') twoHeadersLine) \<and>
   mostRecent (ParentRecordName poLine) (allocRecord poLine (idOf ''001'') twoHeadersLine) = Some 2 \<and>
   isWithinSplit (heap (allocRecord poLine (idOf ''001'') twoHeadersLine) 2) \<and>
   Children (heap (state_of (assemble poParser poLine (idOf ''001'') twoHeadersLine)) 2) = [3] \<and>
   isWithinSplit (heap (state_of (assemble poParser poLine (idOf ''001'') twoHeadersLine)) 3) \<and>
   Parent (heap (state_of (assemble poParser poLine (idOf ''001'') twoHeadersLine)) 3) = None \<and>
   Children (heap (state_of (assemble poParser poLine (idOf ''001'') twoHeadersLine)) 1) = [] \<and>
   scanLines caretMatch poParser [lineOf ''B001'', lineOf ''B002''] initState =
     Continue () twoBatches \<and>
   handlerCalls (twoBatches\<lparr>lineNum := lineNum twoBatches + 1\<rparr>) twoBatchesHeader \<and>
   splitPhase poParser poHeader (nextAddr twoBatchesHeader)
       (allocRecord poHeader (idOf ''001'') twoBatchesHeader) =
     Continue () (installSplit 2 (allocRecord poHeader (idOf ''001'') twoBatchesHeader)) \<and>
   mostRecent (ParentRecordName poHeader)
     (installSplit 2 (allocRecord poHeader (idOf ''001'') twoBatchesHeader)) = Some 1 \<and>
   \<not> isWithinSplit (heap (installSplit 2 (allocRecord poHeader (idOf ''001'') twoBatchesHeader)) 1) \<and>
   Parent (heap (state_of (assemble poParser poHeader (idOf ''001'') twoBatchesHeader)) 2) = Some 1 \<and>
   Children (heap (state_of (assemble poParser poHeader (idOf ''001'') twoBatchesHeader)) 1) = [] \<and>
   Children (heap (state_of (assemble poParser poHeader (idOf ''001'') twoBatchesHeader)) 0) = []"
proof -
  have a0: "scanLines caretMatch poParser [lineOf ''B001'', lineOf ''H001'', lineOf ''H002'']
      initState = Continue () twoHeaders"
    by (simp add: parse_defs po_defs twoHeaders_def)
  have a1: "handlerCalls (twoHeaders\<lparr>lineNum := lineNum twoHeaders + 1\<rparr>) twoHeadersLine"
    unfolding handlerCalls_def
    by (rule exI [of _ "[None, None, None]"])
       (simp add: parse_defs po_defs twoHeaders_def twoHeadersLine_def)
  have a2: "splitPhase poParser poLine (nextAddr twoHeadersLine)
       (allocRecord poLine (idOf ''001'') twoHeadersLine) =
     Continue () (allocRecord poLine (idOf ''001'') twoHeadersLine)"
    by (simp add: parse_defs po_defs twoHeaders_def twoHeadersLine_def)
  have a3: "mostRecent (ParentRecordName poLine)
      (allocRecord poLine (idOf ''001'') twoHeadersLine) = Some 2"
    by (simp add: mostRecent_def parse_defs po_defs twoHeaders_def twoHeadersLine_def)
  have a4: "isWithinSplit (heap (allocRecord poLine (idOf ''001'') twoHeadersLine) 2)"
    "nextAddr twoHeadersLine = 3"
    "Children (heap (allocRecord poLine (idOf ''001'') twoHeadersLine) 2) = []"
    "Children (heap (allocRecord poLine (idOf ''001'') twoHeadersLine) 1) = []"
    by (simp_all add: parse_defs po_defs twoHeaders_def twoHeadersLine_def)
  have b0: "scanLines caretMatch poParser [lineOf ''B001'', lineOf ''B002''] initState =
     Continue () twoBatches"
    by (simp add: parse_defs po_defs twoBatches_def)
  have b1: "handlerCalls (twoBatches\<lparr>lineNum := lineNum twoBatches + 1\<rparr>) twoBatchesHeader"
    unfolding handlerCalls_def
    by (rule exI [of _ "[None, None]"])
       (simp add: parse_defs po_defs twoBatches_def twoBatchesHeader_def)
  have b2: "splitPhase poParser poHeader (nextAddr twoBatchesHeader)
       (allocRecord poHeader (idOf ''001'') twoBatchesHeader) =
     Continue () (installSplit 2 (allocRecord poHeader (idOf ''001'') twoBatchesHeader))"
    by (simp add: parse_defs po_defs twoBatches_def twoBatchesHeader_def numeral_2_eq_2)
  have b3: "mostRecent (ParentRecordName poHeader)
     (installSplit 2 (allocRecord poHeader (idOf ''001'') twoBatchesHeader)) = Some 1"
    by (simp add: mostRecent_def parse_defs po_defs twoBatches_def twoBatchesHeader_def)
  have b4: "\<not> isWithinSplit (heap (installSplit 2
        (allocRecord poHeader (idOf ''001'') twoBatchesHeader)) 1)"
    "nextAddr twoBatchesHeader = 2"
    "Children (heap (installSplit 2 (allocRecord poHeader (idOf ''001'') twoBatchesHeader)) 1) = []"
    "Children (heap (installSplit 2 (allocRecord poHeader (idOf ''001'') twoBatchesHeader)) 0) = []"
    by (simp_all add: parse_defs po_defs twoBatches_def twoBatchesHeader_def)
  from attach_to_parent [OF a0 a1 a2 a3] a4
  have A: "Children (heap (state_of (assemble poParser poLine (idOf ''001'') twoHeadersLine)) 2) = [3] \<and>
   isWithinSplit (heap (state_of (assemble poParser poLine (idOf ''001'') twoHeadersLine)) 3) \<and>
   Parent (heap (state_of (assemble poParser poLine (idOf ''001'') twoHeadersLine)) 3) = None \<and>
   Children (heap (state_of (assemble poParser poLine (idOf ''001'') twoHeadersLine)) 1) = []"
    by auto
  from attach_to_parent [OF b0 b1 b2 b3] b4
  have B: "Parent (heap (state_of (assemble poParser poHeader (idOf ''001'') twoBatchesHeader)) 2) = Some 1 \<and>
   Children (heap (state_of (assemble poParser poHeader (idOf ''001'') twoBatchesHeader)) 1) = [] \<and>
   Children (heap (state_of (assemble poParser poHeader (idOf ''001'') twoBatchesHeader)) 0) = []"
    by auto
  from a0 a1 a2 a3 a4(1) b0 b1 b2 b3 b4(1) A B show ?thesis by blast
qed

text \<open>
  C3. A definition with an empty match expression matches every line. The definitions are
  tested in the declared order: if those before \<open>recDef\<close> do not match the line (and the
  ErrorHandler lets the scan go on after each test) and \<open>recDef\<close> matches, then the line
  is processed with \<open>recDef\<close>, whatever definitions are declared after it: none of them is
  tried, even one that would match or a nil one.
\<close>

theorem first_match_wins:
  "(MatchExpression recDef' = '''' \<longrightarrow> Match rx recDef' data' = (True, None)) \<and>
   ((\<forall>d \<in> set earlier. \<not> fst (Match rx d (bytes data)) \<and>
        ErrorHandler p (ConfigurationError (snd (Match rx d (bytes data)))) = None) \<and>
    fst (Match rx recDef (bytes data)) \<longrightarrow>
    scanDefs rx p data (map Some earlier @ Some recDef # later) s =
      (case handle p (ConfigurationError (snd (Match rx recDef (bytes data))))
              (s\<lparr>trace := trace s @
                   map (\<lambda>d. HandlerCall (snd (Match rx d (bytes data)))) earlier\<rparr>) of
         (Some err, s1) \<Rightarrow> Returned (Some err) s1
       | (None, s1) \<Rightarrow> processRecord p recDef data s1))"
proof (intro conjI impI)
  assume "MatchExpression recDef' = ''''"
  then show "Match rx recDef' data' = (True, None)" by (simp add: Match_def)
next
  assume a: "(\<forall>d \<in> set earlier. \<not> fst (Match rx d (bytes data)) \<and>
        ErrorHandler p (ConfigurationError (snd (Match rx d (bytes data)))) = None) \<and>
    fst (Match rx recDef (bytes data))"
  then show "scanDefs rx p data (map Some earlier @ Some recDef # later) s =
      (case handle p (ConfigurationError (snd (Match rx recDef (bytes data))))
              (s\<lparr>trace := trace s @
                   map (\<lambda>d. HandlerCall (snd (Match rx d (bytes data)))) earlier\<rparr>) of
         (Some err, s1) \<Rightarrow> Returned (Some err) s1
       | (None, s1) \<Rightarrow> processRecord p recDef data s1)"
    by (auto simp: scanDefs_skip split: prod.splits option.splits)
qed

text \<open>
  The line L001 against Batch, Header, Line, a definition that matches everything and a
  nil definition: Line produces the record.
\<close>

theorem first_match_wins_witness:
  "MatchExpression (poDef ''Any'' '''' '''') = '''' \<and>
   Match caretMatch (poDef ''Any'' '''' '''') ''L001'' = (True, None) \<and>
   \<not> fst (Match caretMatch poBatch (bytes (lineOf ''L001''))) \<and>
   ErrorHandler poParser
     (ConfigurationError (snd (Match caretMatch poBatch (bytes (lineOf ''L001''))))) = None \<and>
   \<not> fst (Match caretMatch poHeader (bytes (lineOf ''L001''))) \<and>
   ErrorHandler poParser
     (ConfigurationError (snd (Match caretMatch poHeader (bytes (lineOf ''L001''))))) = None \<and>
   fst (Match caretMatch poLine (bytes (lineOf ''L001''))) \<and>
   scanDefs caretMatch poParser (lineOf ''L001'')
     (map Some [poBatch, poHeader] @ Some poLine # [Some (poDef ''Any'' '''' ''''), None])
     (stateAfter 2) =
     processRecord poParser poLine (lineOf ''L001'')
       ((stateAfter 2)\<lparr>trace := trace (stateAfter 2) @
          [HandlerCall None, HandlerCall None, HandlerCall None]\<rparr>)"
proof -
  have h: "MatchExpression (poDef ''Any'' '''' '''') = ''''"
    "(\<forall>d \<in> set [poBatch, poHeader]. \<not> fst (Match caretMatch d (bytes (lineOf ''L001''))) \<and>
      ErrorHandler poParser (ConfigurationError (snd (Match caretMatch d (bytes (lineOf ''L001''))))) = None) \<and>
     fst (Match caretMatch poLine (bytes (lineOf ''L001'')))"
    by (simp_all add: Match_def ConfigurationError_def DefaultErrorHandler_def po_defs)
  have m: "Match caretMatch poBatch (bytes (lineOf ''L001'')) = (False, None)"
    "Match caretMatch poHeader (bytes (lineOf ''L001'')) = (False, None)"
    "Match caretMatch poLine (bytes (lineOf ''L001'')) = (True, None)"
    "ErrorHandler poParser = DefaultErrorHandler"
    by (simp_all add: Match_def po_defs)
  from first_match_wins [where recDef' = "poDef ''Any'' '''' ''''" and rx = caretMatch
      and data' = "''L001''" and earlier = "[poBatch, poHeader]" and data = "lineOf ''L001''"
      and p = poParser and recDef = poLine and later = "[Some (poDef ''Any'' '''' ''''), None]"
      and s = "stateAfter 2"] h m
  show ?thesis by (simp add: handle_def ConfigurationError_def DefaultErrorHandler_def)
qed

text \<open>
  C4. A line has replaced the split record \<open>u\<close> by a new one, so that \<open>u\<close> has been
  passed to the RecordProcessor. From then on Parse holds no pointer to the record \<open>u\<close>,
  neither in splitRec nor in lastRecords, and the record at \<open>u\<close>, the root of the unit,
  stays as it was before that line, whatever lines follow and however Parse ends. The
  specification states this of every record of the unit; that does not hold below the
  root, since the entries of lastRecords for the other record types are not cleared on
  the hand-over (the example after the theorem).
\<close>

theorem emitted_root_isolated:
  assumes "scanLines rx p before initState = Continue () s"
      and "splitRec s = Some u"
      and "scanLines rx p [ln] s = Continue () s1"
      and "splitRec s1 \<noteq> Some u"
  shows "ProcessorCall (Some u) \<in> set (trace s1) \<and>
         heap (state_of (scanLines rx p later s1)) u = heap s u \<and>
         splitRec (state_of (scanLines rx p later s1)) \<noteq> Some u \<and>
         (\<forall>k. lastRecords (state_of (scanLines rx p later s1)) k \<noteq> Some u) \<and>
         heap (state_of (Parse rx p (before @ ln # later))) u = heap s u"
proof -
  have wf: "wellFormed p s"
    using wellFormed_init assms(1) by (rule wellFormed_scanLines)
  from line_emits [OF wf assms(2,3,4)]
  have k1: "keeps u (heap s u) s1" and t: "ProcessorCall (Some u) \<in> set (trace s1)" by auto
  let ?s2 = "state_of (scanLines rx p later s1)"
  from k1 have k2: "keeps u (heap s u) ?s2" by (rule keeps_scanLines)
  have "scanLines rx p (before @ [ln] @ later) initState = scanLines rx p later s1"
    using assms(1,3) by (simp add: scanLines_append split: result.splits)
  then have "heap (state_of (Parse rx p (before @ ln # later))) = heap ?s2"
    by (cases "scanLines rx p later s1") (simp_all add: Parse_def finish_heap)
  with k2 t show ?thesis by (simp add: keeps_def detached_def)
qed

text \<open>The header H001 (record 1) after the line H002, with S001 to follow.\<close>

theorem emitted_root_isolated_witness:
  "scanLines caretMatch poParser (take 3 poLines) initState = Continue () (stateAfter 3) \<and>
   splitRec (stateAfter 3) = Some 1 \<and>
   scanLines caretMatch poParser [lineOf ''H002''] (stateAfter 3) = Continue () (stateAfter 4) \<and>
   splitRec (stateAfter 4) \<noteq> Some 1 \<and>
   ProcessorCall (Some 1) \<in> set (trace (stateAfter 4)) \<and>
   heap (state_of (scanLines caretMatch poParser [lineOf ''S001''] (stateAfter 4))) 1 = heap (stateAfter 3) 1 \<and>
   splitRec (state_of (scanLines caretMatch poParser [lineOf ''S001''] (stateAfter 4))) \<noteq> Some 1 \<and>
   (\<forall>k. lastRecords (state_of (scanLines caretMatch poParser [lineOf ''S001''] (stateAfter 4))) k \<noteq> Some 1) \<and>
   heap (state_of (Parse caretMatch poParser (take 3 poLines @ lineOf ''H002'' # [lineOf ''S001'']))) 1 =
     heap (stateAfter 3) 1"
proof -
  have h1: "scanLines caretMatch poParser (take 3 poLines) initState = Continue () (stateAfter 3)"
    by (simp add: parse_defs po_defs)
  have h2: "splitRec (stateAfter 3) = Some 1"
    by (simp add: parse_defs po_defs)
  have h3: "scanLines caretMatch poParser [lineOf ''H002''] (stateAfter 3) = Continue () (stateAfter 4)"
    by (simp add: parse_defs po_defs)
  have h4: "splitRec (stateAfter 4) \<noteq> Some 1"
    by (simp add: parse_defs po_defs)
  from emitted_root_isolated [OF h1 h2 h3 h4, where later = "[lineOf ''S001'']"] h1 h2 h3 h4
  show ?thesis by blast
qed

text \<open>
  The input B001, H001, L001, H002, S001. After the fourth line the unit of H001 (record
  1) has been passed to the RecordProcessor, its child L001 (record 2) is still the
  latest Line in lastRecords, and the fifth line, a Shipment whose parent type is Line,
  is appended to the Children of record 2: a record of a unit is written to after the
  unit has been handed over.
\<close>

theorem emitted_unit_mutated_counterexample:
  "scanLines caretMatch poParser (take 4 poLines) initState = Continue () (stateAfter 4) \<and>
   ProcessorCall (Some 1) \<in> set (trace (stateAfter 4)) \<and>
   Children (heap (stateAfter 4) 1) = [2] \<and>
   lastRecords (stateAfter 4) ''Line'' = Some 2 \<and>
   Children (heap (stateAfter 4) 2) = [] \<and>
   scanLines caretMatch poParser [lineOf ''S001''] (stateAfter 4) = Continue () (stateAfter 5) \<and>
   Children (heap (stateAfter 5) 2) = [4]"
  by (simp add: parse_defs po_defs)

text \<open>
  C5. The lines \<open>before\<close> have been processed and none of the records built from them is
  of the parent type that the definition \<open>recDef\<close> names, a type other than its own. The
  next line has been matched and read with \<open>recDef\<close> (the ErrorHandler was called and
  nothing else, which gives the state \<open>s\<close>), its record has been built with the fields
  \<open>flds\<close>, and Parse has reached the resolution of the parent. Then the ErrorHandler is
  called with the RecordParseError of the record type whose text names the parent type
  and the number of the line, \<open>length before + 1\<close>; if it returns an error Parse returns
  it, otherwise Parse goes on with the record unattached. With the DefaultErrorHandler
  Parse returns that error whatever lines follow.
\<close>

theorem missing_parent:
  assumes run: "scanLines rx p before initState = Continue () s0"
      and none: "\<forall>a < nextAddr s0. Record.Name (heap s0 a) \<noteq> ParentRecordName recDef"
      and calls: "handlerCalls (s0\<lparr>lineNum := lineNum s0 + 1\<rparr>) s"
      and split: "splitPhase p recDef (nextAddr s) (allocRecord recDef flds s) = Continue () s1"
      and named: "ParentRecordName recDef \<noteq> ''''"
      and other: "ParentRecordName recDef \<noteq> RecordDefinition.Name recDef"
  shows "assemble p recDef flds s =
           (case ErrorHandler p (Some (noParent recDef (length before + 1))) of
              Some err \<Rightarrow>
                Returned (Some err)
                  (s1\<lparr>trace := trace s1 @
                       [HandlerCall (Some (noParent recDef (length before + 1)))]\<rparr>)
            | None \<Rightarrow>
                Continue ()
                  (s1\<lparr>trace := trace s1 @
                       [HandlerCall (Some (noParent recDef (length before + 1)))]\<rparr>)) \<and>
         noParent recDef (length before + 1) =
           RecordParseError (RecordDefinition.Name recDef)
             (''No available parent record '' @ quoted (ParentRecordName recDef) @
              '' on line '' @ itoa (length before + 1)) \<and>
         (ErrorHandler p = DefaultErrorHandler \<and>
          scanDefs rx p ln (RecordDefinitions p) (s0\<lparr>lineNum := lineNum s0 + 1\<rparr>) =
            assemble p recDef flds s \<longrightarrow>
          Parse rx p (before @ ln # rest) =
            Returned (Some (noParent recDef (length before + 1)))
              (s1\<lparr>trace := trace s1 @
                   [HandlerCall (Some (noParent recDef (length before + 1)))]\<rparr>))"
proof -
  from run none have "lastRecords s0 (ParentRecordName recDef) = None"
    by (simp add: lastRecords_built)
  moreover from calls have "lastRecords s = lastRecords (s0\<lparr>lineNum := lineNum s0 + 1\<rparr>)"
    by (rule handlerCalls_same)
  ultimately have absent: "lastRecords s (ParentRecordName recDef) = None" by simp
  from run have "lineNum s0 = length before"
    using scanLines_lineNum [of rx p before initState s0] by (simp add: initState_def)
  moreover from calls have "lineNum s = lineNum (s0\<lparr>lineNum := lineNum s0 + 1\<rparr>)"
    by (rule handlerCalls_same)
  ultimately have n: "lineNum s = length before + 1" by simp
  have local: "assemble p recDef flds s =
           (case ErrorHandler p (Some (noParent recDef (length before + 1))) of
              Some err \<Rightarrow>
                Returned (Some err)
                  (s1\<lparr>trace := trace s1 @
                       [HandlerCall (Some (noParent recDef (length before + 1)))]\<rparr>)
            | None \<Rightarrow>
                Continue ()
                  (s1\<lparr>trace := trace s1 @
                       [HandlerCall (Some (noParent recDef (length before + 1)))]\<rparr>))"
    using assemble_no_parent [OF split named other absent] unfolding n .
  have msg: "noParent recDef (length before + 1) =
           RecordParseError (RecordDefinition.Name recDef)
             (''No available parent record '' @ quoted (ParentRecordName recDef) @
              '' on line '' @ itoa (length before + 1))"
    by (simp add: noParent_def)
  have global: "Parse rx p (before @ ln # rest) =
            Returned (Some (noParent recDef (length before + 1)))
              (s1\<lparr>trace := trace s1 @
                   [HandlerCall (Some (noParent recDef (length before + 1)))]\<rparr>)"
    if h: "ErrorHandler p = DefaultErrorHandler"
      and r: "scanDefs rx p ln (RecordDefinitions p) (s0\<lparr>lineNum := lineNum s0 + 1\<rparr>) =
            assemble p recDef flds s"
  proof -
    have "scanLines rx p (before @ ln # rest) initState =
          Returned (Some (noParent recDef (length before + 1)))
              (s1\<lparr>trace := trace s1 @
                   [HandlerCall (Some (noParent recDef (length before + 1)))]\<rparr>)"
      using run r local h by (simp add: scanLines_append DefaultErrorHandler_def)
    then show ?thesis by (simp add: Parse_def)
  qed
  from local msg global show ?thesis by blast
qed

text \<open>The input B001, L001, H001: the Line on line 2 has no Header before it.\<close>

theorem missing_parent_witness:
  "scanLines caretMatch poParser [lineOf ''B001''] initState = Continue () (stateAfter 1) \<and>
   nextAddr (stateAfter 1) = 1 \<and>
   Record.Name (heap (stateAfter 1) 0) \<noteq> ParentRecordName poLine \<and>
   handlerCalls ((stateAfter 1)\<lparr>lineNum := lineNum (stateAfter 1) + 1\<rparr>) lineScanned \<and>
   splitPhase poParser poLine (nextAddr lineScanned) (allocRecord poLine (idOf ''001'') lineScanned) =
     Continue () (allocRecord poLine (idOf ''001'') lineScanned) \<and>
   ParentRecordName poLine \<noteq> '''' \<and>
   ParentRecordName poLine \<noteq> RecordDefinition.Name poLine \<and>
   ErrorHandler poParser = DefaultErrorHandler \<and>
   scanDefs caretMatch poParser (lineOf ''L001'') (RecordDefinitions poParser)
     ((stateAfter 1)\<lparr>lineNum := lineNum (stateAfter 1) + 1\<rparr>) =
     assemble poParser poLine (idOf ''001'') lineScanned \<and>
   Parse caretMatch poParser ([lineOf ''B001''] @ lineOf ''L001'' # [lineOf ''H001'']) =
     Returned (Some (RecordParseError ''Line''
         (''No available parent record '' @ quoted ''Header'' @ '' on line 2'')))
       ((allocRecord poLine (idOf ''001'') lineScanned)
          \<lparr>trace := trace lineScanned @ [HandlerCall (Some (RecordParseError ''Line''
              (''No available parent record '' @ quoted ''Header'' @ '' on line 2'')))]\<rparr>)"
proof -
  have run: "scanLines caretMatch poParser [lineOf ''B001''] initState = Continue () (stateAfter 1)"
    by (simp add: parse_defs po_defs)
  have built: "nextAddr (stateAfter 1) = 1"
    "Record.Name (heap (stateAfter 1) 0) \<noteq> ParentRecordName poLine"
    by (simp_all add: parse_defs po_defs)
  then have none: "\<forall>a < nextAddr (stateAfter 1).
      Record.Name (heap (stateAfter 1) a) \<noteq> ParentRecordName poLine"
    by simp
  have calls: "handlerCalls ((stateAfter 1)\<lparr>lineNum := lineNum (stateAfter 1) + 1\<rparr>) lineScanned"
    unfolding handlerCalls_def
    by (rule exI [of _ "[None, None, None]"]) (simp add: parse_defs po_defs lineScanned_def)
  have split: "splitPhase poParser poLine (nextAddr lineScanned)
      (allocRecord poLine (idOf ''001'') lineScanned) =
     Continue () (allocRecord poLine (idOf ''001'') lineScanned)"
    by (simp add: parse_defs po_defs lineScanned_def)
  have named: "ParentRecordName poLine \<noteq> ''''"
    and other: "ParentRecordName poLine \<noteq> RecordDefinition.Name poLine"
    by (simp_all add: po_defs)
  have g1: "ErrorHandler poParser = DefaultErrorHandler" by (simp add: po_defs)
  have g4: "scanDefs caretMatch poParser (lineOf ''L001'') (RecordDefinitions poParser)
     ((stateAfter 1)\<lparr>lineNum := lineNum (stateAfter 1) + 1\<rparr>) =
     assemble poParser poLine (idOf ''001'') lineScanned"
    by (simp add: parse_defs po_defs lineScanned_def itoa.simps digit_def)
  have n: "noParent poLine (length [lineOf ''B001''] + 1) = RecordParseError ''Line''
         (''No available parent record '' @ quoted ''Header'' @ '' on line 2'')"
    "trace (allocRecord poLine (idOf ''001'') lineScanned) = trace lineScanned"
    by (simp_all add: noParent_def po_defs itoa.simps digit_def allocRecord_def)
  from missing_parent [OF run none calls split named other, where ln = "lineOf ''L001''"
      and rest = "[lineOf ''H001'']"] g1 g4
  have "Parse caretMatch poParser ([lineOf ''B001''] @ lineOf ''L001'' # [lineOf ''H001'']) =
     Returned (Some (noParent poLine (length [lineOf ''B001''] + 1)))
       ((allocRecord poLine (idOf ''001'') lineScanned)
          \<lparr>trace := trace (allocRecord poLine (idOf ''001'') lineScanned) @
             [HandlerCall (Some (noParent poLine (length [lineOf ''B001''] + 1)))]\<rparr>)"
    by blast
  then show ?thesis unfolding n using run built calls split named other g1 g4 by blast
qed

text \<open>
  A definition that names its own type as the parent type is the exception: the record
  is registered in lastRecords before its parent is resolved, so the first record of
  that type finds itself, no error is raised, and its Parent points to itself.
\<close>

theorem missing_parent_counterexample:
  "ParentRecordName selfDef \<noteq> '''' \<and>
   lastRecords initState (ParentRecordName selfDef) = None \<and>
   Parse caretMatch selfParser [lineOf ''N001''] =
     Returned None
       (initState\<lparr>heap := (heap initState)(0 := (newRecord selfDef (idOf ''001''))\<lparr>Parent := Some 0\<rparr>),
          nextAddr := 1, lastRecords := [''Node'' \<mapsto> 0], lineNum := 1,
          trace := [HandlerCall None, ProcessorCall None, HandlerCall None]\<rparr>)"
  by (simp add: parse_defs po_defs selfDef_def selfParser_def)



text \<open>
  C7. Read returns the bytes of each range, in order, when the ranges lie within the line
  (Read_loop_in_range above). A range that exceeds the line should give an error, and
  Read never returns one (Read_never_errors): it has no check of the ranges against the
  line. With the coordinates of the repository's test on a line of three bytes, the slice
  expression panics when there is no spare capacity behind the line, and with spare
  capacity Read returns the bytes that follow the line in the buffer.
\<close>

theorem fixed_width_out_of_range:
  "FixedWidthRecordReader_Read [\<lparr>Start = 0, End = 3\<rparr>, \<lparr>Start = 3, End = 13\<rparr>]
     \<lparr>bytes = ''033'', spare = ''''\<rparr> = Panics \<and>
   FixedWidthRecordReader_Read [\<lparr>Start = 0, End = 3\<rparr>, \<lparr>Start = 3, End = 13\<rparr>]
     \<lparr>bytes = ''033'', spare = CHR 0x0A # ''030~0002~Invoice''\<rparr> =
     Returns ([''033'', CHR 0x0A # ''030~0002~''], None) \<and>
   FixedWidthRecordReader_Read Coordinates data \<noteq> Returns (values, Some err)"
  using Read_never_errors [of Coordinates data "values" err]
  by (simp add: FixedWidthRecordReader_Read_def slice_expr_def)

text \<open>
  C8. When the ErrorHandler returns nil for an error, Parse should go on and build the
  record of the line. It does not when the reader has yielded fewer values than there are
  field definitions: the handler is called with the RecordParseError, returns nil, and
  \<open>recVals[i]\<close> panics. Here the ErrorHandler returns nil for every error and the reader
  yields one value for two field definitions.
\<close>

theorem continue_after_short_record_panics:
  "Parse caretMatch lenientParser [lineOf ''W001''] =
     Panicked (initState\<lparr>lineNum := 1,
       trace := [HandlerCall None,
                 HandlerCall (Some (RecordParseError ''Wide''
                   ''Past the end of available data on line 1''))]\<rparr>)"
  by (simp add: parse_defs po_defs lenientParser_def wideDef_def qtyField_def itoa.simps digit_def)

text \<open>
  C9. If a record definition of the document names a reader that is not in the
  RecordReaderRegistry, or has a field definition that names a field type that is not in
  the FieldTypeRegistry, NewParser returns an error, which it converts to
  ConfigurationError. NewParser has no input to read, and Parse has no registry to look
  anything up in: it uses the readers and field types that are in the definitions.
\<close>

theorem unregistered_name_fails:
  assumes "d \<in> set (docRecordDefinitions config)"
      and "(\<exists>name. readerNameOf d = Some name \<and> RecordReaderRegistry name = None) \<or>
           (\<exists>f name. f \<in> set (fieldDefinitionsOf d) \<and> typeNameOf f = Some name \<and>
                      FieldTypeRegistry name = None)"
  shows "\<exists>err. NewParser RecordReaderRegistry FieldTypeRegistry config processor handler = Inl err"
proof -
  from assms(2) have "\<exists>err. RecordDefinition_UnmarshalJSON RecordReaderRegistry FieldTypeRegistry d = Inl err"
    using unknown_reader_fails unknown_field_type_fails by blast
  moreover from assms(2) have "d \<noteq> JNull"
    by (auto simp: readerNameOf_def fieldDefinitionsOf_def memberOf_def)
  ultimately obtain err' where
    "decodeRecordDefinitions RecordReaderRegistry FieldTypeRegistry (docRecordDefinitions config) = Inl err'"
    using decode_fails [OF assms(1)] by blast
  then show ?thesis by (simp add: NewParser_def)
qed

text \<open>A document with an unregistered reader name and one with an unregistered field type
  name.\<close>

theorem unregistered_name_fails_witness:
  "csvDefinition \<in> set (docRecordDefinitions (document csvDefinition)) \<and>
   readerNameOf csvDefinition = Some ''Csv'' \<and> exampleReaders ''Csv'' = None \<and>
   isl (NewParser exampleReaders exampleTypes (document csvDefinition) None None) \<and>
   moneyDefinition \<in> set (docRecordDefinitions (document moneyDefinition)) \<and>
   moneyField \<in> set (fieldDefinitionsOf moneyDefinition) \<and>
   typeNameOf moneyField = Some ''Money'' \<and> exampleTypes ''Money'' = None \<and>
   isl (NewParser exampleReaders exampleTypes (document moneyDefinition) None None)"
proof -
  have a: "csvDefinition \<in> set (docRecordDefinitions (document csvDefinition))"
    "moneyDefinition \<in> set (docRecordDefinitions (document moneyDefinition))"
    by (simp_all add: document_def)
  have b: "readerNameOf csvDefinition = Some ''Csv'' \<and> exampleReaders ''Csv'' = None"
    by (simp add: readerNameOf_def memberOf_def csvDefinition_def exampleReaders_def)
  have c: "moneyField \<in> set (fieldDefinitionsOf moneyDefinition) \<and>
     typeNameOf moneyField = Some ''Money'' \<and> exampleTypes ''Money'' = None"
    by (simp add: fieldDefinitionsOf_def typeNameOf_def memberOf_def moneyDefinition_def
        moneyField_def exampleTypes_def)
  from b have b': "(\<exists>name. readerNameOf csvDefinition = Some name \<and> exampleReaders name = None) \<or>
      (\<exists>f name. f \<in> set (fieldDefinitionsOf csvDefinition) \<and> typeNameOf f = Some name \<and>
          exampleTypes name = None)" by blast
  from c have c': "(\<exists>name. readerNameOf moneyDefinition = Some name \<and> exampleReaders name = None) \<or>
      (\<exists>f name. f \<in> set (fieldDefinitionsOf moneyDefinition) \<and> typeNameOf f = Some name \<and>
          exampleTypes name = None)" by blast
  from unregistered_name_fails [OF a(1) b', of None None]
  have 1: "isl (NewParser exampleReaders exampleTypes (document csvDefinition) None None)" by auto
  from unregistered_name_fails [OF a(2) c', of None None]
  have 2: "isl (NewParser exampleReaders exampleTypes (document moneyDefinition) None None)" by auto
  from a b c 1 2 show ?thesis by blast
qed

text \<open>
  C10. When the match test of a definition succeeds without error, the ErrorHandler is
  called with nil before the line is processed, and an error that it returns is returned
  by Parse. So with an ErrorHandler that returns an error when it is given nil, Parse
  returns that error at the first test of the first line if that test raised no error,
  with no record built.
\<close>

theorem handler_called_with_nil:
  "(Match rx recDef (bytes data) = (True, None) \<longrightarrow>
    scanDefs rx p data (Some recDef # recDefs) s =
      (case ErrorHandler p None of
         Some err \<Rightarrow> Returned (Some err) (s\<lparr>trace := trace s @ [HandlerCall None]\<rparr>)
       | None \<Rightarrow> processRecord p recDef data (s\<lparr>trace := trace s @ [HandlerCall None]\<rparr>))) \<and>
   (RecordDefinitions p = Some recDef # recDefs \<and> snd (Match rx recDef (bytes data)) = None \<and>
    ErrorHandler p None = Some err \<longrightarrow>
    Parse rx p (data # lines) =
      Returned (Some err) (initState\<lparr>lineNum := 1, trace := [HandlerCall None]\<rparr>))"
  by (auto simp: handle_def ConfigurationError_def Parse_def initState_def
      split: prod.splits option.splits)

text \<open>The first line of the input under the default handler and under a handler that
  returns an error whatever it is given.\<close>

theorem handler_called_with_nil_witness:
  "Match caretMatch poBatch (bytes (lineOf ''B001'')) = (True, None) \<and>
   scanDefs caretMatch poParser (lineOf ''B001'') (Some poBatch # [Some poHeader]) initState =
     processRecord poParser poBatch (lineOf ''B001'') (initState\<lparr>trace := [HandlerCall None]\<rparr>) \<and>
   RecordDefinitions strictParser = Some poBatch # [Some poHeader, Some poLine, Some poShipment] \<and>
   snd (Match caretMatch poBatch (bytes (lineOf ''B001''))) = None \<and>
   ErrorHandler strictParser None = Some (ErrorString ''halt'') \<and>
   Parse caretMatch strictParser (lineOf ''B001'' # [lineOf ''H001'']) =
     Returned (Some (ErrorString ''halt'')) (initState\<lparr>lineNum := 1, trace := [HandlerCall None]\<rparr>)"
proof -
  have a: "Match caretMatch poBatch (bytes (lineOf ''B001'')) = (True, None)"
    by (simp add: Match_def po_defs)
  have b: "RecordDefinitions strictParser = Some poBatch # [Some poHeader, Some poLine, Some poShipment] \<and>
   snd (Match caretMatch poBatch (bytes (lineOf ''B001''))) = None \<and>
   ErrorHandler strictParser None = Some (ErrorString ''halt'')"
    by (simp add: Match_def po_defs strictParser_def)
  have e: "ErrorHandler poParser None = None" "trace initState = []"
    by (simp_all add: po_defs DefaultErrorHandler_def initState_def)
  from handler_called_with_nil [where rx = caretMatch and recDef = poBatch and data = "lineOf ''B001''"
      and p = poParser and recDefs = "[Some poHeader]" and s = initState] a e
  have 1: "scanDefs caretMatch poParser (lineOf ''B001'') (Some poBatch # [Some poHeader]) initState =
     processRecord poParser poBatch (lineOf ''B001'') (initState\<lparr>trace := [HandlerCall None]\<rparr>)"
    by simp
  from handler_called_with_nil [where rx = caretMatch and recDef = poBatch and data = "lineOf ''B001''"
      and p = strictParser and recDefs = "[Some poHeader, Some poLine, Some poShipment]"
      and err = "ErrorString ''halt''" and lines = "[lineOf ''H001'']"] b
  have 2: "Parse caretMatch strictParser (lineOf ''B001'' # [lineOf ''H001'']) =
     Returned (Some (ErrorString ''halt'')) (initState\<lparr>lineNum := 1, trace := [HandlerCall None]\<rparr>)"
    by blast
  from a b 1 2 show ?thesis by blast
qed

end
